theory Spec2Isabelle
  imports Complex_Main "HOL-Library.Multiset"
begin

section \<open>JavaScript numbers\<close>

text \<open>
  A JavaScript \<^verbatim>\<open>number\<close> is an IEEE 754 binary64 value.  The model keeps the three
  special values apart and carries a finite value as the rational it denotes.  The two
  zeros are identified: no operation of the program divides by a computed zero, and zero
  is the only place where the sign of zero could be observed.
\<close>

datatype jsnum = NaN | PosInf | NegInf | Fin rat

definition pow2 :: "int \<Rightarrow> rat" where
  "pow2 k = (if 0 \<le> k then 2 ^ nat k else 1 / 2 ^ nat (- k))"

text \<open>The binary exponent of a positive rational: \<open>2 ^ ilog2 x \<le> x < 2 ^ (ilog2 x + 1)\<close>.\<close>

function ilog2 :: "rat \<Rightarrow> int" where
  "ilog2 x = (if x \<le> 0 then 0
              else if 2 \<le> x then ilog2 (x / 2) + 1
              else if x < 1 then ilog2 (2 * x) - 1
              else 0)"
  by pat_completeness auto
termination
proof (relation "measure (\<lambda>x. if 1 \<le> x then nat \<lfloor>x\<rfloor> else nat \<lceil>1 / x\<rceil> + 1)")
  show "wf (measure (\<lambda>x::rat. if 1 \<le> x then nat \<lfloor>x\<rfloor> else nat \<lceil>1 / x\<rceil> + 1))"
    by simp
next
  fix x :: rat
  assume a: "\<not> x \<le> 0" "2 \<le> x"
  have "x / 2 \<le> x - 1" using a by simp
  then have "\<lfloor>x / 2\<rfloor> \<le> \<lfloor>x - 1\<rfloor>" by (rule floor_mono)
  then have "\<lfloor>x / 2\<rfloor> < \<lfloor>x\<rfloor>" by simp
  moreover have "0 < \<lfloor>x\<rfloor>" using a by simp
  ultimately show "(x / 2, x) \<in> measure (\<lambda>x. if 1 \<le> x then nat \<lfloor>x\<rfloor> else nat \<lceil>1 / x\<rceil> + 1)"
    using a by simp
next
  fix x :: rat
  assume a: "\<not> x \<le> 0" "\<not> 2 \<le> x" "x < 1"
  show "(2 * x, x) \<in> measure (\<lambda>x. if 1 \<le> x then nat \<lfloor>x\<rfloor> else nat \<lceil>1 / x\<rceil> + 1)"
  proof (cases "1 \<le> 2 * x")
    case True
    have "\<lfloor>2 * x\<rfloor> = 1" using True a by (simp add: floor_eq_iff)
    moreover have "1 < 1 / x" using a by simp
    then have "1 < \<lceil>1 / x\<rceil>" by (simp add: less_ceiling_iff)
    ultimately show ?thesis using True a by simp
  next
    case False
    have "2 < 1 / x" using False a by (simp add: field_simps)
    then have "1 / (2 * x) \<le> 1 / x - 1" using a by (simp add: field_simps)
    then have "\<lceil>1 / (2 * x)\<rceil> \<le> \<lceil>1 / x - 1\<rceil>" by (rule ceiling_mono)
    then have "\<lceil>1 / (2 * x)\<rceil> < \<lceil>1 / x\<rceil>" by simp
    moreover have "0 < \<lceil>1 / x\<rceil>" using a by (simp add: less_ceiling_iff)
    ultimately show ?thesis using False a by simp
  qed
qed

declare ilog2.simps [simp del]

text \<open>Rounding to the nearest integer, ties to the even one.\<close>

definition round_half_even :: "rat \<Rightarrow> int" where
  "round_half_even t =
     (let f = \<lfloor>t\<rfloor>; d = t - of_int f
      in if d < 1 / 2 then f else if 1 / 2 < d then f + 1
         else if even f then f else f + 1)"

text \<open>
  The binary64 value of a rational (round to nearest, ties to even): 53 significant bits,
  the spacing of the subnormal range below \<open>2 ^ (- 1022)\<close>, and an infinity when the
  rounded magnitude reaches \<open>2 ^ 1024\<close>, which happens when the exponent is at least
  1024, or is 1023 and the significand rounds up to \<open>2 ^ 53\<close>.
\<close>

definition double_of :: "rat \<Rightarrow> jsnum" where
  "double_of x =
     (if x = 0 then Fin 0
      else let e = ilog2 \<bar>x\<bar>;
               q = max e (- 1022) - 52;
               m = round_half_even (x / pow2 q)
           in if 1024 \<le> e \<or> (e = 1023 \<and> 2 ^ 53 \<le> \<bar>m\<bar>)
              then (if 0 < x then PosInf else NegInf)
              else Fin (of_int m * pow2 q))"

fun js_neg :: "jsnum \<Rightarrow> jsnum" where
  "js_neg NaN = NaN"
| "js_neg PosInf = NegInf"
| "js_neg NegInf = PosInf"
| "js_neg (Fin x) = Fin (- x)"

fun js_add :: "jsnum \<Rightarrow> jsnum \<Rightarrow> jsnum" where
  "js_add NaN _ = NaN"
| "js_add _ NaN = NaN"
| "js_add PosInf NegInf = NaN"
| "js_add NegInf PosInf = NaN"
| "js_add PosInf _ = PosInf"
| "js_add NegInf _ = NegInf"
| "js_add (Fin x) PosInf = PosInf"
| "js_add (Fin x) NegInf = NegInf"
| "js_add (Fin x) (Fin y) = double_of (x + y)"

definition js_sub :: "jsnum \<Rightarrow> jsnum \<Rightarrow> jsnum" where
  "js_sub a b = js_add a (js_neg b)"

text \<open>The sign of a number that is not NaN, as \<open>-1\<close>, \<open>0\<close> or \<open>1\<close>.\<close>

fun js_sign :: "jsnum \<Rightarrow> int" where
  "js_sign NaN = 0"
| "js_sign PosInf = 1"
| "js_sign NegInf = - 1"
| "js_sign (Fin x) = sgn \<lfloor>x\<rfloor> + (if \<lfloor>x\<rfloor> = 0 \<and> 0 < x then 1 else 0)"

definition signed_inf :: "int \<Rightarrow> jsnum" where
  "signed_inf s = (if s = 0 then NaN else if 0 < s then PosInf else NegInf)"

fun js_mul :: "jsnum \<Rightarrow> jsnum \<Rightarrow> jsnum" where
  "js_mul NaN _ = NaN"
| "js_mul _ NaN = NaN"
| "js_mul (Fin x) (Fin y) = double_of (x * y)"
| "js_mul a b = signed_inf (js_sign a * js_sign b)"

fun js_div :: "jsnum \<Rightarrow> jsnum \<Rightarrow> jsnum" where
  "js_div NaN _ = NaN"
| "js_div _ NaN = NaN"
| "js_div (Fin x) (Fin y) =
     (if y = 0 then signed_inf (js_sign (Fin x)) else double_of (x / y))"
| "js_div (Fin x) _ = Fin 0"
| "js_div a (Fin y) = signed_inf (js_sign a * (if y < 0 then - 1 else 1))"
| "js_div _ _ = NaN"

fun js_less :: "jsnum \<Rightarrow> jsnum \<Rightarrow> bool" where
  "js_less NaN _ = False"
| "js_less _ NaN = False"
| "js_less (Fin x) (Fin y) = (x < y)"
| "js_less NegInf b = (b \<noteq> NegInf)"
| "js_less a PosInf = (a \<noteq> PosInf)"
| "js_less _ _ = False"

fun isNaN :: "jsnum \<Rightarrow> bool" where
  "isNaN NaN = True"
| "isNaN _ = False"

fun isFinite :: "jsnum \<Rightarrow> bool" where
  "isFinite (Fin _) = True"
| "isFinite _ = False"

section \<open>JavaScript strings\<close>

text \<open>
  A JavaScript string is a sequence of UTF-16 code units, here natural numbers.  \<open>str\<close>
  turns an ASCII literal into such a sequence.
\<close>

type_synonym jsstring = "nat list"

definition str :: "string \<Rightarrow> jsstring" where
  "str s = map of_char s"

text \<open>
  The code units that \<^verbatim>\<open>trim\<close>, \<^verbatim>\<open>parseFloat\<close>, \<^verbatim>\<open>parseInt\<close> and the regular
  expression class \<^verbatim>\<open>\s\<close> treat as white space: the ECMAScript WhiteSpace and
  LineTerminator code points.
\<close>

definition isWhiteSpace :: "nat \<Rightarrow> bool" where
  "isWhiteSpace c \<longleftrightarrow>
     c \<in> {9, 10, 11, 12, 13, 32, 160, 5760, 8232, 8233, 8239, 8287, 12288, 65279}
     \<or> (8192 \<le> c \<and> c \<le> 8202)"

definition isDigit :: "nat \<Rightarrow> bool" where
  "isDigit c \<longleftrightarrow> 48 \<le> c \<and> c \<le> 57"

text \<open>The number written by a sequence of decimal digits.\<close>

definition digits_value :: "jsstring \<Rightarrow> nat" where
  "digits_value ds = foldl (\<lambda>a c. 10 * a + (c - 48)) 0 ds"

definition trim :: "jsstring \<Rightarrow> jsstring" where
  "trim s = rev (dropWhile isWhiteSpace (rev (dropWhile isWhiteSpace s)))"

text \<open>
  \<^verbatim>\<open>s.replace(pat, rep)\<close> with a string pattern replaces the first occurrence of the
  pattern only.  (The replacement strings of the program contain no \<^verbatim>\<open>$\<close>.)
\<close>

fun js_replace :: "jsstring \<Rightarrow> jsstring \<Rightarrow> jsstring \<Rightarrow> jsstring" where
  "js_replace pat rep [] = (if pat = [] then rep else [])"
| "js_replace pat rep (c # cs) =
     (if take (length pat) (c # cs) = pat then rep @ drop (length pat) (c # cs)
      else c # js_replace pat rep cs)"

definition toUpperCase_unit :: "nat \<Rightarrow> nat" where
  "toUpperCase_unit c = (if 97 \<le> c \<and> c \<le> 122 then c - 32 else c)"

subsection \<open>parseFloat and parseInt\<close>

text \<open>
  \<^verbatim>\<open>parseFloat\<close> skips leading white space and reads the longest prefix that is a
  StrDecimalLiteral: an optional sign, then \<^verbatim>\<open>Infinity\<close>, or digits with an optional
  fraction, or a fraction alone, then an optional exponent.  Without such a prefix the
  result is NaN.  The value read is rounded to binary64.
\<close>

text \<open>The exponent part at the start of the text, if there is one: \<^verbatim>\<open>e\<close>, a sign, digits.\<close>

definition exponent_part :: "jsstring \<Rightarrow> int" where
  "exponent_part s =
     (case s of
        [] \<Rightarrow> 0
      | c # r \<Rightarrow>
          if c = 101 \<or> c = 69 then
            (case r of
               [] \<Rightarrow> 0
             | d # r' \<Rightarrow>
                 if d = 45 then - int (digits_value (takeWhile isDigit r'))
                 else if d = 43 then int (digits_value (takeWhile isDigit r'))
                 else int (digits_value (takeWhile isDigit r)))
          else 0)"

definition pow10 :: "int \<Rightarrow> rat" where
  "pow10 k = (if 0 \<le> k then 10 ^ nat k else 1 / 10 ^ nat (- k))"

definition StrUnsignedDecimalLiteral :: "jsstring \<Rightarrow> jsnum" where
  "StrUnsignedDecimalLiteral s =
     (if take 8 s = str ''Infinity'' then PosInf
      else let intd = takeWhile isDigit s;
               r1 = dropWhile isDigit s;
               dot = (r1 \<noteq> [] \<and> hd r1 = 46);
               fracd = (if dot then takeWhile isDigit (tl r1) else []);
               r2 = (if dot then dropWhile isDigit (tl r1) else r1)
           in if intd = [] \<and> fracd = [] then NaN
              else double_of
                     ((of_nat (digits_value intd)
                       + of_nat (digits_value fracd) / 10 ^ length fracd)
                      * pow10 (exponent_part r2)))"

definition parseFloat :: "jsstring \<Rightarrow> jsnum" where
  "parseFloat s =
     (case dropWhile isWhiteSpace s of
        [] \<Rightarrow> NaN
      | c # r \<Rightarrow>
          if c = 45 then js_neg (StrUnsignedDecimalLiteral r)
          else if c = 43 then StrUnsignedDecimalLiteral r
          else StrUnsignedDecimalLiteral (c # r))"

text \<open>\<^verbatim>\<open>parseInt(s, 10)\<close>: white space, an optional sign, the longest run of digits.\<close>

definition parseInt10 :: "jsstring \<Rightarrow> jsnum" where
  "parseInt10 s =
     (let t = dropWhile isWhiteSpace s;
          neg = (t \<noteq> [] \<and> hd t = 45);
          u = (if t \<noteq> [] \<and> (hd t = 45 \<or> hd t = 43) then tl t else t);
          ds = takeWhile isDigit u
      in if ds = [] then NaN
         else if neg then js_neg (double_of (of_nat (digits_value ds)))
         else double_of (of_nat (digits_value ds)))"

text \<open>\<^verbatim>\<open>Math.round\<close>: the nearest integer, a tie going towards \<open>+\<infinity>\<close>.\<close>

fun Math_round :: "jsnum \<Rightarrow> jsnum" where
  "Math_round (Fin x) = Fin (of_int \<lfloor>x + 1 / 2\<rfloor>)"
| "Math_round a = a"

text \<open>
  \<^verbatim>\<open>Math.PI\<close> is the binary64 number nearest to \<open>\<pi>\<close>.  \<^verbatim>\<open>Math.tan\<close> and \<^verbatim>\<open>Math.log\<close>
  are implementation-approximated: ECMAScript fixes their values at the special
  arguments only, and the rest is a parameter of the model.
\<close>

definition Math_PI :: jsnum where
  "Math_PI = Fin (884279719003555 / 281474976710656)"

record Math_impl =
  tan_approx :: "rat \<Rightarrow> jsnum"
  log_approx :: "rat \<Rightarrow> jsnum"

fun Math_tan :: "Math_impl \<Rightarrow> jsnum \<Rightarrow> jsnum" where
  "Math_tan M (Fin x) = (if x = 0 then Fin 0 else tan_approx M x)"
| "Math_tan M _ = NaN"

fun Math_log :: "Math_impl \<Rightarrow> jsnum \<Rightarrow> jsnum" where
  "Math_log M (Fin x) =
     (if x < 0 then NaN else if x = 0 then NegInf else if x = 1 then Fin 0
      else log_approx M x)"
| "Math_log M PosInf = PosInf"
| "Math_log M _ = NaN"
section \<open>Configuration constants\<close>

definition WKID :: jsnum where
  "WKID = Fin 102100"

definition RADIUS :: jsnum where
  "RADIUS = Fin 6378137"

definition MAX_CONCURRENT_REQUESTS :: nat where
  "MAX_CONCURRENT_REQUESTS = 5"

definition REQ_LIMIT_PER_MIN :: jsnum where
  "REQ_LIMIT_PER_MIN = Fin 60"

definition BATCH_SIZE :: jsnum where
  "BATCH_SIZE = Fin 10"

definition BATCH_DELAY :: jsnum where
  "BATCH_DELAY = js_mul (js_div (Fin 60) (js_div REQ_LIMIT_PER_MIN BATCH_SIZE)) (Fin 1000)"

section \<open>Interfaces\<close>

record Coordinate =
  latitude :: jsstring
  longitude :: jsstring

text \<open>
  A queued coordinate carries the map layer it is to be tried on.  The field is read
  as \<^verbatim>\<open>mapLayerId ?? 0\<close> throughout, so it is optional.
\<close>

record CoordinateWithLayer = Coordinate +
  mapLayerId :: "nat option"

record Wkid =
  wkid :: jsnum

record Envelope =
  xmin :: jsnum
  ymin :: jsnum
  xmax :: jsnum
  ymax :: jsnum
  spatialReference :: Wkid

datatype AttributeValue = AttrString jsstring | AttrNumber jsnum | AttrNull

record Attribute =
  attributes :: "(jsstring \<times> AttributeValue) list"

record Field =
  field_name :: jsstring
  field_type :: jsstring
  field_alias :: jsstring
  field_length :: jsnum

text \<open>
  The response is what \<^verbatim>\<open>res.json()\<close> yields, cast to \<^verbatim>\<open>BatimetriaResponse\<close> without a
  check: a body without a \<^verbatim>\<open>features\<close> array has \<^verbatim>\<open>features\<close> undefined, here \<open>None\<close>.
\<close>

record BatimetriaResponse =
  displayFieldName :: jsstring
  features :: "Attribute list option"
  fieldAliases :: "(jsstring \<times> jsstring) list"
  response_fields :: "Field list"

record Result =
  coord :: CoordinateWithLayer
  rfeatures :: "Attribute list option"

definition nullish :: "'a option \<Rightarrow> 'a \<Rightarrow> 'a" where
  "nullish v d = (case v of None \<Rightarrow> d | Some x \<Rightarrow> x)"

section \<open>Coordinate parser and projection\<close>

definition parseCoordinate :: "jsstring \<Rightarrow> jsnum option" where
  "parseCoordinate v =
     (let parsed = parseFloat (js_replace (str '','') (str ''.'') v)
      in if isNaN parsed then None else Some parsed)"

definition calcXValue :: "jsnum \<Rightarrow> jsnum" where
  "calcXValue lon = js_mul RADIUS (js_div (js_mul lon Math_PI) (Fin 180))"

definition calcYValue :: "Math_impl \<Rightarrow> jsnum \<Rightarrow> jsnum" where
  "calcYValue M lat =
     js_mul RADIUS
       (Math_log M
          (Math_tan M
             (js_add (js_div Math_PI (Fin 4))
                     (js_div (js_div (js_mul lat Math_PI) (Fin 180)) (Fin 2)))))"

definition returnEnvelope :: "jsnum \<Rightarrow> jsnum \<Rightarrow> jsnum \<Rightarrow> Envelope" where
  "returnEnvelope x y deltaMeters =
     \<lparr> xmin = js_sub x deltaMeters,
       ymin = js_sub y deltaMeters,
       xmax = js_add x deltaMeters,
       ymax = js_add y deltaMeters,
       spatialReference = \<lparr> wkid = WKID \<rparr> \<rparr>"

text \<open>The default of \<^verbatim>\<open>deltaMeters\<close> is 1000; every call of the program relies on it.\<close>

definition latLonToEnvelope :: "Math_impl \<Rightarrow> jsnum \<Rightarrow> jsnum \<Rightarrow> jsnum option \<Rightarrow> Envelope" where
  "latLonToEnvelope M lat lon deltaMeters =
     (let x = calcXValue lon;
          y = calcYValue M lat
      in returnEnvelope x y (nullish deltaMeters (Fin 1000)))"

section \<open>Depth fetcher\<close>

text \<open>
  The network is a parameter: it answers the request for an envelope and a layer, issued
  as the \<open>n\<close>-th attempt of the run, with a transport failure or an HTTP response whose
  body may or may not be a JSON document.  Quantifying over it covers every behaviour of
  the remote service.  The query string that \<^verbatim>\<open>returnSearchParams\<close> builds is determined
  by the envelope and the layer, which stand for it here.
\<close>

datatype fetch_failure = NetworkError | ApiError nat | JsonError

record HttpResponse =
  ok :: bool
  status :: nat
  json :: "BatimetriaResponse option"

type_synonym network = "nat \<Rightarrow> Envelope \<Rightarrow> nat \<Rightarrow> fetch_failure + HttpResponse"

definition fetchDepthForEnvelope ::
  "network \<Rightarrow> nat \<Rightarrow> Envelope \<Rightarrow> nat \<Rightarrow> fetch_failure + BatimetriaResponse" where
  "fetchDepthForEnvelope net n envelope layer =
     (case net n envelope layer of
        Inl e \<Rightarrow> Inl e
      | Inr res \<Rightarrow>
          if \<not> ok res then Inl (ApiError (status res))
          else (case json res of None \<Rightarrow> Inl JsonError | Some r \<Rightarrow> Inr r))"

section \<open>Batch scheduler\<close>

text \<open>
  One attempt on a dequeued coordinate, the body of \<^verbatim>\<open>batch.map\<close>: it never throws, a
  malformed coordinate and a failed fetch both give an empty feature list, and a fetch
  that succeeds gives \<^verbatim>\<open>res.features\<close> as it is, defined or not.
\<close>

definition attempt :: "Math_impl \<Rightarrow> network \<Rightarrow> nat \<Rightarrow> CoordinateWithLayer \<Rightarrow> Result" where
  "attempt M net n c =
     (let lat = parseCoordinate (latitude c);
          lon = parseCoordinate (longitude c)
      in if lat = None \<or> lon = None then \<lparr> coord = c, rfeatures = Some [] \<rparr>
         else
           let envelope = latLonToEnvelope M (the lat) (the lon) None
           in case fetchDepthForEnvelope net n envelope (nullish (mapLayerId c) 0) of
                Inr res \<Rightarrow> \<lparr> coord = c, rfeatures = features res \<rparr>
              | Inl err \<Rightarrow> \<lparr> coord = c, rfeatures = Some [] \<rparr>)"

text \<open>
  The state of the loop: the work queue, the output list, and the coordinates dequeued
  so far in the order they were attempted (a record of the run; the program keeps none).
\<close>

record sched =
  queue :: "CoordinateWithLayer list"
  results :: "Result list"
  attempted :: "CoordinateWithLayer list"

text \<open>
  The loop over the results of a batch runs outside every \<^verbatim>\<open>try\<close>: reading
  \<^verbatim>\<open>result.features.length\<close> of a result whose features are undefined throws a
  \<^verbatim>\<open>TypeError\<close>, which rejects the promise of \<^verbatim>\<open>runInBatches\<close>.
\<close>

datatype run_error = TypeError

text \<open>The body of the \<^verbatim>\<open>for\<close> loop over the results of a batch.\<close>

definition settle :: "sched \<Rightarrow> Result \<Rightarrow> run_error + sched" where
  "settle st result =
     (case rfeatures result of
        None \<Rightarrow> Inl TypeError
      | Some fs \<Rightarrow>
          if length fs = 0 \<and> nullish (mapLayerId (coord result)) 0 < 5
          then Inr (st\<lparr> queue :=
                 (coord result)\<lparr> mapLayerId := Some (nullish (mapLayerId (coord result)) 0 + 1) \<rparr>
                 # queue st \<rparr>)
          else Inr (st\<lparr> results := results st @ [result] \<rparr>))"

fun settle_all :: "sched \<Rightarrow> Result list \<Rightarrow> run_error + sched" where
  "settle_all st [] = Inr st"
| "settle_all st (result # rest) =
     (case settle st result of Inl e \<Rightarrow> Inl e | Inr st' \<Rightarrow> settle_all st' rest)"

text \<open>One iteration of the \<^verbatim>\<open>while\<close> loop.  The delay between batches changes no state.\<close>

definition batch_step :: "Math_impl \<Rightarrow> network \<Rightarrow> nat \<Rightarrow> sched \<Rightarrow> run_error + sched" where
  "batch_step M net batchSize st =
     (let batch = take batchSize (queue st);
          n = length (attempted st);
          batchResults = map (\<lambda>(i, c). attempt M net i c) (zip [n ..< n + length batch] batch)
      in settle_all
           (st\<lparr> queue := drop batchSize (queue st), attempted := attempted st @ batch \<rparr>)
           batchResults)"

text \<open>
  The loop: \<open>None\<close> stands for a run that never ends, \<open>Some (Inl e)\<close> for a run that
  throws \<open>e\<close>, \<open>Some (Inr st)\<close> for a run that leaves the loop in the state \<open>st\<close>.
\<close>

partial_function (option) batch_loop ::
  "Math_impl \<Rightarrow> network \<Rightarrow> nat \<Rightarrow> sched \<Rightarrow> (run_error + sched) option" where
  "batch_loop M net batchSize st =
     (if length (queue st) > 0
      then (if isl (batch_step M net batchSize st)
            then Some (Inl (projl (batch_step M net batchSize st)))
            else batch_loop M net batchSize (projr (batch_step M net batchSize st)))
      else Some (Inr st))"

declare batch_loop.simps [code]

definition initial :: "Coordinate list \<Rightarrow> sched" where
  "initial coordinates =
     \<lparr> queue = map (\<lambda>c. \<lparr> latitude = latitude c, longitude = longitude c, mapLayerId = Some 0 \<rparr>)
                   coordinates,
       results = [],
       attempted = [] \<rparr>"

text \<open>
  \<^verbatim>\<open>runInBatches\<close> resolves to the output list or rejects; \<open>run\<close> is the same run with
  its final state in full.  The batch size is the number of elements \<^verbatim>\<open>splice\<close> removes;
  its default is 10 and the only call passes \<open>MAX_CONCURRENT_REQUESTS\<close>.
\<close>

definition run ::
  "Math_impl \<Rightarrow> network \<Rightarrow> Coordinate list \<Rightarrow> nat \<Rightarrow> (run_error + sched) option" where
  "run M net coordinates batchSize = batch_loop M net batchSize (initial coordinates)"

definition runInBatches ::
  "Math_impl \<Rightarrow> network \<Rightarrow> Coordinate list \<Rightarrow> nat \<Rightarrow> (run_error + Result list) option" where
  "runInBatches M net coordinates batchSize =
     map_option (map_sum id results) (run M net coordinates batchSize)"

section \<open>The DMS parser\<close>

subsection \<open>Regular expressions\<close>

text \<open>
  The regular expression of \<^verbatim>\<open>parseStringCoordinate\<close> is matched by the backtracking
  procedure of ECMAScript: alternatives are tried in priority order, a greedy quantifier
  first takes as much as it can and gives back one repetition at a time, and the first
  way to match the whole pattern wins.  The matcher below does this for the constructs the
  pattern uses: a class of code units, sequence, a greedy optional part, a greedy
  repetition of a class within bounds, and a capturing group.
\<close>

datatype rx =
    Cls "nat \<Rightarrow> bool"
  | Seq rx rx
  | Opt rx
  | Rep nat "nat option" "nat \<Rightarrow> bool"
  | Grp nat rx

type_synonym captures = "nat \<Rightarrow> jsstring option"

type_synonym mstate = "jsstring \<times> captures"

text \<open>\<open>try_down lo n f\<close> tries \<open>f n\<close>, \<open>f (n - 1)\<close>, \<dots>, \<open>f lo\<close> and returns the first success.\<close>

primrec try_down :: "nat \<Rightarrow> nat \<Rightarrow> (nat \<Rightarrow> 'r option) \<Rightarrow> 'r option" where
  "try_down lo 0 f = (if lo = 0 then f 0 else None)"
| "try_down lo (Suc n) f =
     (if Suc n < lo then None
      else (case f (Suc n) of Some r \<Rightarrow> Some r | None \<Rightarrow> try_down lo n f))"

text \<open>
  \<open>rx_match r st k\<close> matches \<open>r\<close> at the start of the remaining input of \<open>st\<close> and hands
  the state after the match to the continuation \<open>k\<close>, which matches the rest of the
  pattern; when \<open>k\<close> fails the next alternative of \<open>r\<close> is tried.
\<close>

fun rx_match :: "rx \<Rightarrow> mstate \<Rightarrow> (mstate \<Rightarrow> 'r option) \<Rightarrow> 'r option" where
  "rx_match (Cls p) (s, caps) k =
     (case s of [] \<Rightarrow> None | c # r \<Rightarrow> if p c then k (r, caps) else None)"
| "rx_match (Seq a b) st k = rx_match a st (\<lambda>st'. rx_match b st' k)"
| "rx_match (Opt a) st k =
     (case rx_match a st k of Some r \<Rightarrow> Some r | None \<Rightarrow> k st)"
| "rx_match (Rep lo hi p) (s, caps) k =
     (let n = length (takeWhile p s);
          m = (case hi of None \<Rightarrow> n | Some h \<Rightarrow> min h n)
      in try_down lo m (\<lambda>j. k (drop j s, caps)))"
| "rx_match (Grp i a) (s, caps) k =
     rx_match a (s, caps)
       (\<lambda>(s', caps'). k (s', caps'(i \<mapsto> take (length s - length s') s)))"

text \<open>
  \<^verbatim>\<open>regex.exec(s)\<close> for a pattern without the global flag: the match is tried at every
  start position from the left, and the result holds the captures of the first match.
\<close>

fun rx_exec :: "rx \<Rightarrow> jsstring \<Rightarrow> captures option" where
  "rx_exec r [] = rx_match r ([], \<lambda>i. None) (\<lambda>(s', caps). Some caps)"
| "rx_exec r (c # cs) =
     (case rx_match r (c # cs, \<lambda>i. None) (\<lambda>(s', caps). Some caps) of
        Some caps \<Rightarrow> Some caps
      | None \<Rightarrow> rx_exec r cs)"

definition Chr :: "nat \<Rightarrow> rx" where
  "Chr c = Cls (\<lambda>x. x = c)"

text \<open>
  The class \<^verbatim>\<open>[NSEW]\<close> under the flag \<^verbatim>\<open>i\<close>: a code unit matches when its upper case is
  one of the four letters; only the ASCII letters have such an upper case.
\<close>

definition is_NSEW :: "nat \<Rightarrow> bool" where
  "is_NSEW c \<longleftrightarrow> toUpperCase_unit c \<in> {78, 83, 69, 87}"

text \<open>
  \<^verbatim>\<open>/(\d{1,3})\<degree>\s*(\d{1,2})'?(\d{1,2}(?:\.\d+)?)?"?([NSEW])/i\<close>, the degree sign being the
  code unit 176.
\<close>

definition dms_regex :: rx where
  "dms_regex =
     Seq (Grp 1 (Rep 1 (Some 3) isDigit))
    (Seq (Chr 176)
    (Seq (Rep 0 None isWhiteSpace)
    (Seq (Grp 2 (Rep 1 (Some 2) isDigit))
    (Seq (Opt (Chr 39))
    (Seq (Opt (Grp 3 (Seq (Rep 1 (Some 2) isDigit)
                          (Opt (Seq (Chr 46) (Rep 1 None isDigit))))))
    (Seq (Opt (Chr 34))
         (Grp 4 (Cls is_NSEW))))))))"

subsection \<open>parseStringCoordinate\<close>

datatype dms_error = InvalidFormat jsstring

text \<open>\<^verbatim>\<open>!g\<close> for a capture: it is undefined or the empty string.\<close>

definition falsy :: "jsstring option \<Rightarrow> bool" where
  "falsy g \<longleftrightarrow> g = None \<or> g = Some []"

definition toUpperCase :: "jsstring \<Rightarrow> jsstring" where
  "toUpperCase s = map toUpperCase_unit s"

definition parseStringCoordinate :: "jsstring \<Rightarrow> dms_error + jsnum" where
  "parseStringCoordinate coordinate =
     (case rx_exec dms_regex (trim coordinate) of
        None \<Rightarrow> Inl (InvalidFormat coordinate)
      | Some match \<Rightarrow>
          if falsy (match 1) \<or> falsy (match 2) \<or> falsy (match 3) \<or> falsy (match 4)
          then Inl (InvalidFormat coordinate)
          else
            let degrees = parseInt10 (the (match 1));
                minutes = parseInt10 (the (match 2));
                seconds = parseFloat (the (match 3));
                direction = toUpperCase (the (match 4));
                decimal = js_add (js_add degrees (js_div minutes (Fin 60)))
                                 (js_div seconds (Fin 3600));
                decimal' = (if direction = str ''S'' \<or> direction = str ''W''
                            then js_mul decimal (Fin (- 1)) else decimal)
            in Inr (js_div (Math_round (js_mul decimal' (Fin 100))) (Fin 100)))"

section \<open>Notions used to state the properties\<close>

subsection \<open>The scheduler\<close>

text \<open>The layer a queued coordinate is tried on, as the program reads it.\<close>

definition layer :: "CoordinateWithLayer \<Rightarrow> nat" where
  "layer t = nullish (mapLayerId t) 0"

text \<open>The input coordinate a queued coordinate or a result came from.\<close>

definition coordinate_of :: "CoordinateWithLayer \<Rightarrow> Coordinate" where
  "coordinate_of t = \<lparr> latitude = latitude t, longitude = longitude t \<rparr>"

text \<open>The coordinate \<open>c\<close> queued for layer \<open>l\<close>.\<close>

definition task :: "Coordinate \<Rightarrow> nat \<Rightarrow> CoordinateWithLayer" where
  "task c l = \<lparr> latitude = latitude c, longitude = longitude c, mapLayerId = Some l \<rparr>"

text \<open>Whether the loop over the batch results puts a result back on the queue, and as what.\<close>

definition needs_retry :: "Result \<Rightarrow> bool" where
  "needs_retry r \<longleftrightarrow> rfeatures r = Some [] \<and> layer (coord r) < 5"

definition requeued :: "Result \<Rightarrow> CoordinateWithLayer" where
  "requeued r = (coord r)\<lparr> mapLayerId := Some (layer (coord r) + 1) \<rparr>"

text \<open>
  The number of times a queued coordinate can still be dequeued, and its sum over the
  queued coordinates that satisfy \<open>P\<close>.
\<close>

definition weight :: "CoordinateWithLayer \<Rightarrow> nat" where
  "weight t = Suc (5 - layer t)"

definition potential :: "(CoordinateWithLayer \<Rightarrow> bool) \<Rightarrow> CoordinateWithLayer list \<Rightarrow> nat" where
  "potential P ts = sum_list (map weight (filter P ts))"

text \<open>The results of the attempts of one batch, as \<open>batch_step\<close> computes them.\<close>

definition batch_results :: "Math_impl \<Rightarrow> network \<Rightarrow> nat \<Rightarrow> sched \<Rightarrow> Result list" where
  "batch_results M net bs st = map (\<lambda>(i, c). attempt M net i c)
     (zip [length (attempted st) ..< length (attempted st) + length (take bs (queue st))] (take bs (queue st)))"

text \<open>The state after a batch none of whose results has undefined features.\<close>

definition batch_next :: "Math_impl \<Rightarrow> network \<Rightarrow> nat \<Rightarrow> sched \<Rightarrow> sched" where
  "batch_next M net bs st =
     \<lparr> queue = rev (map requeued (filter needs_retry (batch_results M net bs st)))
                 @ drop bs (queue st),
       results = results st @ filter (\<lambda>r. \<not> needs_retry r) (batch_results M net bs st),
       attempted = attempted st @ take bs (queue st) \<rparr>"

text \<open>A service every successful answer of which carries a \<^verbatim>\<open>features\<close> array.\<close>

definition lists_features :: "network \<Rightarrow> bool" where
  "lists_features net \<longleftrightarrow>
     (\<forall>n e l res. fetchDepthForEnvelope net n e l = Inr res \<longrightarrow> features res \<noteq> None)"

subsection \<open>Example inputs\<close>

text \<open>
  A Math implementation, a family of remote services and two coordinates on which the
  model is run: \<open>layer_service k\<close> has data on the layers from \<open>k\<close> on and answers every
  request for a lower layer with an empty feature list.
\<close>

definition flat_math :: Math_impl where
  "flat_math = \<lparr> tan_approx = (\<lambda>x. Fin 1), log_approx = (\<lambda>x. Fin 0) \<rparr>"

definition depth_feature :: Attribute where
  "depth_feature = \<lparr> attributes = [(str ''profundida'', AttrNumber (Fin 35))] \<rparr>"

definition response_with :: "Attribute list \<Rightarrow> BatimetriaResponse" where
  "response_with fs =
     \<lparr> displayFieldName = str ''profundida'', features = Some fs,
       fieldAliases = [], response_fields = [] \<rparr>"

definition layer_service :: "nat \<Rightarrow> network" where
  "layer_service k n e l =
     Inr \<lparr> ok = True, status = 200,
           json = Some (response_with (if l < k then [] else [depth_feature])) \<rparr>"

text \<open>A service that answers with status 200 and a body without a \<^verbatim>\<open>features\<close> array.\<close>

definition broken_service :: network where
  "broken_service n e l =
     Inr \<lparr> ok = True, status = 200,
           json = Some \<lparr> displayFieldName = [], features = None,
                         fieldAliases = [], response_fields = [] \<rparr> \<rparr>"

definition offline :: network where
  "offline n e l = Inl NetworkError"

definition para_coast :: Coordinate where
  "para_coast = \<lparr> latitude = str ''-2.21'', longitude = str ''-47.43'' \<rparr>"

definition malformed :: Coordinate where
  "malformed = \<lparr> latitude = str ''abc'', longitude = str ''-47.43'' \<rparr>"

subsection \<open>Numeric text\<close>

text \<open>
  The numeric input of the specification, a decimal number written with a comma or a dot
  as its separator: an optional sign, digits, and optionally a separator followed by
  digits, with nothing before or after.
\<close>

definition decimal_text :: "jsstring \<Rightarrow> bool" where
  "decimal_text s \<longleftrightarrow>
     (let u = (case s of [] \<Rightarrow> [] | c # r \<Rightarrow> if c = 45 \<or> c = 43 then r else s);
          r = dropWhile isDigit u
      in takeWhile isDigit u \<noteq> []
         \<and> (r = [] \<or> ((hd r = 44 \<or> hd r = 46) \<and> tl r \<noteq> [] \<and> list_all isDigit (tl r))))"

text \<open>
  What \<^verbatim>\<open>parseFloat\<close> needs, which is less: a text has a numeric prefix when, after
  leading white space and an optional sign, it starts with a digit, with a dot followed
  by a digit, or with \<^verbatim>\<open>Infinity\<close>; whatever follows the number is ignored.
\<close>

definition starts_numeric :: "jsstring \<Rightarrow> bool" where
  "starts_numeric u \<longleftrightarrow>
     (case u of
        [] \<Rightarrow> False
      | c # r \<Rightarrow> isDigit c \<or> (c = 46 \<and> (case r of [] \<Rightarrow> False | d # r' \<Rightarrow> isDigit d)))
     \<or> take 8 u = str ''Infinity''"

definition numeric_prefix :: "jsstring \<Rightarrow> bool" where
  "numeric_prefix s \<longleftrightarrow>
     (case dropWhile isWhiteSpace s of
        [] \<Rightarrow> False
      | c # r \<Rightarrow> if c = 45 \<or> c = 43 then starts_numeric r else starts_numeric (c # r))"

subsection \<open>DMS texts\<close>

text \<open>
  The full form of the texts that the expression of \<^verbatim>\<open>parseStringCoordinate\<close> is written
  for: one to three digits, the degree sign, one or two digits, an apostrophe, one or two
  digits with an optional fraction, a double quote and a hemisphere letter in either
  case, with nothing between, before or after them.  \<open>dms_parts\<close> returns the degrees,
  minutes and seconds texts and the letter of a text of this form.
\<close>

definition expect :: "nat \<Rightarrow> jsstring \<Rightarrow> jsstring option" where
  "expect c s = (case s of [] \<Rightarrow> None | x # r \<Rightarrow> if x = c then Some r else None)"

definition fraction_part :: "jsstring \<Rightarrow> jsstring" where
  "fraction_part s =
     (case expect 46 s of
        None \<Rightarrow> []
      | Some r \<Rightarrow> if takeWhile isDigit r = [] then [] else 46 # takeWhile isDigit r)"

definition dms_parts :: "jsstring \<Rightarrow> (jsstring \<times> jsstring \<times> jsstring \<times> nat) option" where
  "dms_parts s =
     (let d = takeWhile isDigit s in
      if length d < 1 \<or> 3 < length d then None
      else case expect 176 (dropWhile isDigit s) of
        None \<Rightarrow> None
      | Some r2 \<Rightarrow>
          let m = takeWhile isDigit r2 in
          if length m < 1 \<or> 2 < length m then None
          else case expect 39 (dropWhile isDigit r2) of
            None \<Rightarrow> None
          | Some r4 \<Rightarrow>
              let si = takeWhile isDigit r4;
                  fr = fraction_part (dropWhile isDigit r4)
              in if length si < 1 \<or> 2 < length si then None
                 else case expect 34 (drop (length fr) (dropWhile isDigit r4)) of
                   None \<Rightarrow> None
                 | Some r6 \<Rightarrow>
                     (case r6 of
                        [h] \<Rightarrow> if is_NSEW h then Some (d, m, si @ fr, h) else None
                      | _ \<Rightarrow> None))"

text \<open>
  The pattern as the specification writes it, \<^verbatim>\<open>D{1,3}\<degree> M{1,2}' S(.S)?" [NSEW]\<close>: one to
  three digits and the degree sign, a space, one or two digits and an apostrophe, a
  space, digits with an optional fraction and a double quote, a space, and a hemisphere
  letter in either case.
\<close>

definition spec_dms_pattern :: "jsstring \<Rightarrow> bool" where
  "spec_dms_pattern s \<longleftrightarrow>
     (let d = takeWhile isDigit s in
      1 \<le> length d \<and> length d \<le> 3 \<and>
      (case expect 176 (dropWhile isDigit s) of None \<Rightarrow> False | Some a \<Rightarrow>
       case expect 32 a of None \<Rightarrow> False | Some r2 \<Rightarrow>
         let m = takeWhile isDigit r2 in
         1 \<le> length m \<and> length m \<le> 2 \<and>
         (case expect 39 (dropWhile isDigit r2) of None \<Rightarrow> False | Some b \<Rightarrow>
          case expect 32 b of None \<Rightarrow> False | Some r4 \<Rightarrow>
            takeWhile isDigit r4 \<noteq> [] \<and>
            (let r5 = dropWhile isDigit r4; fr = fraction_part r5 in
             case expect 34 (drop (length fr) r5) of None \<Rightarrow> False | Some c \<Rightarrow>
             case expect 32 c of None \<Rightarrow> False | Some r6 \<Rightarrow>
               (case r6 of [h] \<Rightarrow> is_NSEW h | _ \<Rightarrow> False)))))"

text \<open>
  The three steps of the conversion, in binary64 arithmetic: the decimal degrees, the
  sign given by the hemisphere letter, and the rounding to two decimals by
  \<^verbatim>\<open>Math.round(x * 100) / 100\<close>.
\<close>

definition dms_decimal :: "jsnum \<Rightarrow> jsnum \<Rightarrow> jsnum \<Rightarrow> jsnum" where
  "dms_decimal degrees minutes seconds =
     js_add (js_add degrees (js_div minutes (Fin 60))) (js_div seconds (Fin 3600))"

definition hemisphere :: "jsstring \<Rightarrow> jsnum \<Rightarrow> jsnum" where
  "hemisphere letter x =
     (if toUpperCase letter = str ''S'' \<or> toUpperCase letter = str ''W''
      then js_mul x (Fin (- 1)) else x)"

definition round2 :: "jsnum \<Rightarrow> jsnum" where
  "round2 x = js_div (Math_round (js_mul x (Fin 100))) (Fin 100)"

subsection \<open>Example DMS texts\<close>

definition dms_text :: "string \<Rightarrow> string \<Rightarrow> string \<Rightarrow> string \<Rightarrow> jsstring" where
  "dms_text d m s h = str d @ 176 # str m @ 39 # str s @ 34 # str h"

definition dms_text_unquoted :: "string \<Rightarrow> string \<Rightarrow> string \<Rightarrow> string \<Rightarrow> jsstring" where
  "dms_text_unquoted d m s h = str d @ 176 # str m @ 39 # str s @ str h"

definition dms_text_spaced :: "string \<Rightarrow> string \<Rightarrow> string \<Rightarrow> string \<Rightarrow> jsstring" where
  "dms_text_spaced d m s h = str d @ 176 # 32 # str m @ 39 # 32 # str s @ 34 # 32 # str h"

section \<open>Properties of the number parsers\<close>

lemma isNaN_double_of: "isNaN (double_of x) = False"
  by (simp add: double_of_def Let_def)

lemma isNaN_js_neg: "isNaN (js_neg x) = isNaN x"
  by (cases x) simp_all

lemma isNaN_StrUnsignedDecimalLiteral:
  "isNaN (StrUnsignedDecimalLiteral u) \<longleftrightarrow> \<not> starts_numeric u"
proof (cases "take 8 u = str ''Infinity''")
  case True
  then show ?thesis by (simp add: StrUnsignedDecimalLiteral_def starts_numeric_def)
next
  case False
  show ?thesis
  proof (cases u)
    case Nil
    then show ?thesis by (simp add: StrUnsignedDecimalLiteral_def starts_numeric_def str_def)
  next
    case (Cons c r)
    show ?thesis
    proof (cases "isDigit c")
      case True
      then show ?thesis using False Cons
        by (simp add: StrUnsignedDecimalLiteral_def starts_numeric_def Let_def isNaN_double_of)
    next
      case nd: False
      then show ?thesis using False Cons
        by (cases r) (auto simp: StrUnsignedDecimalLiteral_def starts_numeric_def Let_def isNaN_double_of)
    qed
  qed
qed

lemma isNaN_parseFloat: "isNaN (parseFloat s) \<longleftrightarrow> \<not> numeric_prefix s"
proof (cases "dropWhile isWhiteSpace s")
  case Nil
  show ?thesis unfolding parseFloat_def numeric_prefix_def Nil by simp
next
  case (Cons c r)
  show ?thesis unfolding parseFloat_def numeric_prefix_def Cons
    by (simp add: isNaN_js_neg isNaN_StrUnsignedDecimalLiteral)
qed

lemma js_replace_first:
  "c \<notin> set a \<Longrightarrow> js_replace [c] [d] (a @ c # b) = a @ d # b"
  by (induction a) auto

lemmas parse_defs = parseCoordinate_def parseFloat_def StrUnsignedDecimalLiteral_def str_def
  isWhiteSpace_def isDigit_def digits_value_def exponent_part_def pow10_def Let_def

lemma double_of_221: "double_of (221 / 100) = Fin (2488238794122199 / 1125899906842624)"
  by code_simp

lemma double_of_minus_221: "double_of (- (221 / 100)) = Fin (- (2488238794122199 / 1125899906842624))"
  by code_simp

lemma js_replace_absent: "c \<notin> set v \<Longrightarrow> js_replace [c] [d] v = v"
  by (induction v) auto

lemma not_space_digit_sign: "isDigit c \<or> c = 45 \<or> c = 43 \<Longrightarrow> \<not> isWhiteSpace c"
  by (auto simp: isDigit_def isWhiteSpace_def)

lemma digit_not_comma: "isDigit c \<Longrightarrow> c \<noteq> 44"
  by (auto simp: isDigit_def)

lemma decimal_text_numeric_prefix:
  assumes "decimal_text v"
  shows "numeric_prefix (js_replace (str '','') (str ''.'') v)"
proof (cases v)
  case Nil
  then show ?thesis using assms by (simp add: decimal_text_def)
next
  case (Cons c r)
  show ?thesis
  proof (cases "c = 45 \<or> c = 43")
    case True
    then have "takeWhile isDigit r \<noteq> []" using assms Cons by (auto simp: decimal_text_def Let_def)
    then obtain d r' where r: "r = d # r'" and d: "isDigit d" by (cases r) (auto split: if_splits)
    have "js_replace (str '','') (str ''.'') v = c # d # js_replace (str '','') (str ''.'') r'"
      using True digit_not_comma [OF d] by (auto simp: Cons r str_def)
    then show ?thesis
      using True d not_space_digit_sign [of c] by (auto simp: numeric_prefix_def starts_numeric_def)
  next
    case False
    then have "takeWhile isDigit (c # r) \<noteq> []" using assms Cons by (auto simp: decimal_text_def Let_def)
    then have d: "isDigit c" by (auto split: if_splits)
    have "js_replace (str '','') (str ''.'') v = c # js_replace (str '','') (str ''.'') r"
      using digit_not_comma [OF d] by (auto simp: Cons str_def)
    then show ?thesis
      using False d not_space_digit_sign [of c] by (auto simp: numeric_prefix_def starts_numeric_def)
  qed
qed

lemma double_of_12: "double_of 12 = Fin 12"
  by code_simp

lemma double_of_6_5: "double_of (6 / 5) = Fin (5404319552844595 / 4503599627370496)"
  by code_simp

section \<open>Properties of the DMS parser\<close>

subsection \<open>Matching a text of the full form\<close>

lemma try_down_first: "lo \<le> n \<Longrightarrow> f n = Some r \<Longrightarrow> try_down lo n f = Some r"
  by (cases n) auto

lemma m_rep:
  assumes "\<forall>c \<in> set ds. p c" and "rest = [] \<or> \<not> p (hd rest)"
    and "lo \<le> length ds" and "case hi of None \<Rightarrow> True | Some h \<Rightarrow> length ds \<le> h"
    and "k (rest, caps) = Some r"
  shows "rx_match (Rep lo hi p) (ds @ rest, caps) k = Some r"
proof -
  have tw: "takeWhile p (ds @ rest) = ds"
    using assms(1,2) by (cases rest) (simp_all add: takeWhile_append2)
  have m: "(case hi of None \<Rightarrow> length ds | Some h \<Rightarrow> min h (length ds)) = length ds"
    using assms(4) by (cases hi) simp_all
  show ?thesis
    using assms(3,5) by (simp add: tw m try_down_first)
qed

lemma m_grp:
  "rx_match a (s, caps) (\<lambda>(s', caps'). k (s', caps'(i \<mapsto> take (length s - length s') s))) = Some r
   \<Longrightarrow> rx_match (Grp i a) (s, caps) k = Some r"
  by simp

lemma m_grp_rep:
  assumes "\<forall>c \<in> set ds. p c" and "rest = [] \<or> \<not> p (hd rest)"
    and "lo \<le> length ds" and "case hi of None \<Rightarrow> True | Some h \<Rightarrow> length ds \<le> h"
    and "k (rest, caps(i \<mapsto> ds)) = Some r"
  shows "rx_match (Grp i (Rep lo hi p)) (ds @ rest, caps) k = Some r"
  by (rule m_grp, rule m_rep [OF assms(1-4)]) (simp add: assms(5))

lemma m_seq:
  "rx_match a st (\<lambda>st'. rx_match b st' k) = Some r \<Longrightarrow> rx_match (Seq a b) st k = Some r"
  by simp

lemma m_opt: "rx_match a st k = Some r \<Longrightarrow> rx_match (Opt a) st k = Some r"
  by simp

lemma m_opt_skip: "rx_match a st k = None \<Longrightarrow> k st = Some r \<Longrightarrow> rx_match (Opt a) st k = Some r"
  by simp

lemma m_chr: "k (s, caps) = Some r \<Longrightarrow> rx_match (Chr c) (c # s, caps) k = Some r"
  by (simp add: Chr_def)

lemma m_chr_fail: "s = [] \<or> hd s \<noteq> c \<Longrightarrow> rx_match (Seq (Chr c) b) (s, caps) k = None"
  by (cases s) (auto simp: Chr_def)

lemma m_cls: "p c \<Longrightarrow> k (s, caps) = Some r \<Longrightarrow> rx_match (Cls p) (c # s, caps) k = Some r"
  by simp

lemma rx_exec_first:
  "rx_match r (s, \<lambda>i. None) (\<lambda>(s', caps). Some caps) = Some caps \<Longrightarrow> rx_exec r s = Some caps"
  by (cases s) simp_all

lemma m_rep_none:
  assumes "s = [] \<or> \<not> p (hd s)" and "k (s, caps) = Some r"
  shows "rx_match (Rep 0 hi p) (s, caps) k = Some r"
  using m_rep [of "[]" p s 0 hi k caps r] assms by (cases hi) simp_all

lemma digit_not_space: "isDigit c \<Longrightarrow> \<not> isWhiteSpace c"
  by (auto simp: isDigit_def isWhiteSpace_def)

lemma dms_match:
  assumes d: "\<forall>c \<in> set d. isDigit c" "1 \<le> length d" "length d \<le> 3"
    and m: "\<forall>c \<in> set m. isDigit c" "1 \<le> length m" "length m \<le> 2"
    and si: "\<forall>c \<in> set si. isDigit c" "1 \<le> length si" "length si \<le> 2"
    and fr: "fr = [] \<or> (\<exists>fd. fr = 46 # fd \<and> fd \<noteq> [] \<and> (\<forall>c \<in> set fd. isDigit c))"
    and h: "is_NSEW h"
  shows "rx_exec dms_regex (d @ 176 # m @ 39 # si @ fr @ [34, h])
         = Some ((\<lambda>i. None)(1 \<mapsto> d, 2 \<mapsto> m, 3 \<mapsto> si @ fr, 4 \<mapsto> [h]))"
proof -
  let ?K = "\<lambda>(s' :: jsstring, caps :: captures). Some caps"
  have nd: "\<not> isDigit 176" "\<not> isDigit 39" "\<not> isDigit 34" "\<not> isDigit 46"
    by (simp_all add: isDigit_def)
  have hm: "\<not> isWhiteSpace (hd (m @ rest))" for rest
    using m(1,2) by (cases m) (simp_all add: digit_not_space)
  \<comment> \<open>the closing quote and the hemisphere letter\<close>
  have tail: "rx_match (Seq (Opt (Chr 34)) (Grp 4 (Cls is_NSEW))) ([34, h], c) ?K
              = Some (c(4 \<mapsto> [h]))" for c
    using h by (simp add: Chr_def)
  \<comment> \<open>the seconds\<close>
  have secs: "rx_match (Seq (Opt (Grp 3 (Seq (Rep 1 (Some 2) isDigit)
                                         (Opt (Seq (Chr 46) (Rep 1 None isDigit))))))
                        (Seq (Opt (Chr 34)) (Grp 4 (Cls is_NSEW))))
                (si @ fr @ [34, h], c) ?K
              = Some (c(3 \<mapsto> si @ fr, 4 \<mapsto> [h]))" for c
  proof (rule m_seq, rule m_opt, rule m_grp, rule m_seq)
    show "rx_match (Rep 1 (Some 2) isDigit) (si @ fr @ [34, h], c)
           (\<lambda>st'. rx_match (Opt (Seq (Chr 46) (Rep 1 None isDigit))) st'
              (\<lambda>(s', caps'). rx_match (Seq (Opt (Chr 34)) (Grp 4 (Cls is_NSEW)))
                  (s', caps'(3 \<mapsto> take (length (si @ fr @ [34, h]) - length s') (si @ fr @ [34, h]))) ?K))
          = Some (c(3 \<mapsto> si @ fr, 4 \<mapsto> [h]))"
    proof (rule m_rep)
      show "\<forall>c \<in> set si. isDigit c" by (rule si(1))
      show "fr @ [34, h] = [] \<or> \<not> isDigit (hd (fr @ [34, h]))"
        using fr nd by auto
      show "1 \<le> length si" by (rule si(2))
      show "case Some 2 of None \<Rightarrow> True | Some h \<Rightarrow> length si \<le> h" using si(3) by simp
      show "rx_match (Opt (Seq (Chr 46) (Rep 1 None isDigit))) (fr @ [34, h], c)
              (\<lambda>(s', caps'). rx_match (Seq (Opt (Chr 34)) (Grp 4 (Cls is_NSEW)))
                  (s', caps'(3 \<mapsto> take (length (si @ fr @ [34, h]) - length s') (si @ fr @ [34, h]))) ?K)
            = Some (c(3 \<mapsto> si @ fr, 4 \<mapsto> [h]))"
      proof (cases "fr = []")
        case True
        show ?thesis unfolding True
          by (rule m_opt_skip, rule m_chr_fail) (simp_all del: rx_match.simps add: tail)
      next
        case False
        then obtain fd where fd: "fr = 46 # fd" "fd \<noteq> []" "\<forall>c \<in> set fd. isDigit c"
          using fr by blast
        have "rx_match (Seq (Chr 46) (Rep 1 None isDigit)) (46 # fd @ [34, h], c)
              (\<lambda>(s', caps'). rx_match (Seq (Opt (Chr 34)) (Grp 4 (Cls is_NSEW)))
                  (s', caps'(3 \<mapsto> take (length (si @ (46 # fd) @ [34, h]) - length s')
                                         (si @ (46 # fd) @ [34, h]))) ?K)
            = Some (c(3 \<mapsto> si @ 46 # fd, 4 \<mapsto> [h]))"
        proof (rule m_seq, rule m_chr, rule m_rep)
          show "\<forall>c \<in> set fd. isDigit c" by (rule fd(3))
          show "[34, h] = [] \<or> \<not> isDigit (hd [34, h])" using nd by simp
          show "1 \<le> length fd" using fd(2) by (cases fd) simp_all
          show "case None of None \<Rightarrow> True | Some h \<Rightarrow> length fd \<le> h" by simp
        qed (simp del: rx_match.simps add: tail)
        then show ?thesis unfolding fd(1) by (simp del: rx_match.simps add: m_opt)
      qed
    qed
  qed
  have "rx_match dms_regex (d @ 176 # m @ 39 # si @ fr @ [34, h], \<lambda>i. None) ?K
        = Some ((\<lambda>i. None)(1 \<mapsto> d, 2 \<mapsto> m, 3 \<mapsto> si @ fr, 4 \<mapsto> [h]))"
    unfolding dms_regex_def
  proof (rule m_seq, rule m_grp_rep [OF d(1) _ d(2)], goal_cases)
    case 1
    show ?case using nd by simp
  next
    case 2
    show ?case using d(3) by simp
  next
    case 3
    show ?case
    proof (rule m_seq, rule m_chr, rule m_seq, rule m_rep_none [OF _], goal_cases)
      case 1
      show ?case using hm by simp
    next
      case 2
      show ?case
      proof (rule m_seq, rule m_grp_rep [OF m(1) _ m(2)], goal_cases)
        case 1
        show ?case using nd by simp
      next
        case 2
        show ?case using m(3) by simp
      next
        case 3
        show ?case
          by (rule m_seq, rule m_opt, rule m_chr) (simp only: secs)
      qed
    qed
  qed
  then show ?thesis by (rule rx_exec_first)
qed

lemma expect_Some: "expect c s = Some r \<longleftrightarrow> s = c # r"
  by (cases s) (auto simp: expect_def)

lemma fraction_part_shape:
  "fraction_part s = [] \<or> (\<exists>fd. fraction_part s = 46 # fd \<and> fd \<noteq> [] \<and> (\<forall>c \<in> set fd. isDigit c))"
  by (auto simp: fraction_part_def expect_Some split: option.splits dest: set_takeWhileD)

lemma fraction_part_prefix: "fraction_part s @ drop (length (fraction_part s)) s = s"
proof -
  have "take (length (fraction_part s)) s = fraction_part s"
    by (auto simp: fraction_part_def expect_Some takeWhile_eq_take [symmetric] split: option.splits)
  then show ?thesis
    by (metis append_take_drop_id)
qed

lemma dms_partsD:
  assumes "dms_parts s = Some (d, m, sec, h)"
  shows "\<exists>si fr. s = d @ 176 # m @ 39 # si @ fr @ [34, h] \<and> sec = si @ fr
          \<and> (\<forall>c \<in> set d. isDigit c) \<and> 1 \<le> length d \<and> length d \<le> 3
          \<and> (\<forall>c \<in> set m. isDigit c) \<and> 1 \<le> length m \<and> length m \<le> 2
          \<and> (\<forall>c \<in> set si. isDigit c) \<and> 1 \<le> length si \<and> length si \<le> 2
          \<and> (fr = [] \<or> (\<exists>fd. fr = 46 # fd \<and> fd \<noteq> [] \<and> (\<forall>c \<in> set fd. isDigit c)))
          \<and> is_NSEW h"
proof -
  from assms have "\<exists>r2 r4. dropWhile isDigit s = 176 # r2 \<and> dropWhile isDigit r2 = 39 # r4
      \<and> drop (length (fraction_part (dropWhile isDigit r4))) (dropWhile isDigit r4) = [34, h]
      \<and> is_NSEW h \<and> d = takeWhile isDigit s \<and> m = takeWhile isDigit r2
      \<and> sec = takeWhile isDigit r4 @ fraction_part (dropWhile isDigit r4)
      \<and> 1 \<le> length d \<and> length d \<le> 3 \<and> 1 \<le> length m \<and> length m \<le> 2
      \<and> 1 \<le> length (takeWhile isDigit r4) \<and> length (takeWhile isDigit r4) \<le> 2"
    unfolding dms_parts_def
    by (auto simp: Let_def expect_Some Suc_le_eq split: if_splits option.splits list.splits)
  then obtain r2 r4 where r2: "dropWhile isDigit s = 176 # r2" and r4: "dropWhile isDigit r2 = 39 # r4"
    and t0: "drop (length (fraction_part (dropWhile isDigit r4))) (dropWhile isDigit r4) = [34, h]"
    and h: "is_NSEW h" and d: "d = takeWhile isDigit s" "1 \<le> length d" "length d \<le> 3"
    and m: "m = takeWhile isDigit r2" "1 \<le> length m" "length m \<le> 2"
    and sec0: "sec = takeWhile isDigit r4 @ fraction_part (dropWhile isDigit r4)"
    and si0: "1 \<le> length (takeWhile isDigit r4)" "length (takeWhile isDigit r4) \<le> 2"
    by blast
  define si where "si = takeWhile isDigit r4"
  define r5 where "r5 = dropWhile isDigit r4"
  define fr where "fr = fraction_part r5"
  have s: "s = takeWhile isDigit s @ dropWhile isDigit s" by simp
  have r2s: "r2 = takeWhile isDigit r2 @ dropWhile isDigit r2" by simp
  have r4s: "r4 = si @ r5" by (simp add: si_def r5_def)
  have r5s: "r5 = fr @ drop (length fr) r5" by (simp add: fr_def fraction_part_prefix)
  have t: "drop (length fr) r5 = [34, h]" using t0 by (simp add: fr_def r5_def)
  have sec: "sec = si @ fr" using sec0 by (simp add: si_def fr_def r5_def)
  have si: "1 \<le> length si" "length si \<le> 2" using si0 by (simp_all add: si_def)
  have "s = d @ 176 # m @ 39 # si @ fr @ [34, h]"
  proof -
    have "r5 = fr @ [34, h]" using r5s t by simp
    then have "r4 = si @ fr @ [34, h]" using r4s by simp
    then have "r2 = m @ 39 # si @ fr @ [34, h]" using r2s r4 m(1) by simp
    then show ?thesis using s r2 d(1) by simp
  qed
  moreover have "\<forall>c \<in> set d. isDigit c" "\<forall>c \<in> set m. isDigit c" "\<forall>c \<in> set si. isDigit c"
    unfolding d(1) m(1) si_def by (auto dest: set_takeWhileD)
  moreover have "fr = [] \<or> (\<exists>fd. fr = 46 # fd \<and> fd \<noteq> [] \<and> (\<forall>c \<in> set fd. isDigit c))"
    unfolding fr_def by (rule fraction_part_shape)
  ultimately show ?thesis
    using d(2,3) m(2,3) si sec h by blast
qed

lemmas dms_eval = parseStringCoordinate_def dms_text_def dms_text_unquoted_def dms_text_spaced_def
  str_def trim_def
  isWhiteSpace_def dms_regex_def Chr_def isDigit_def is_NSEW_def toUpperCase_unit_def falsy_def
  toUpperCase_def parseInt10_def parseFloat_def StrUnsignedDecimalLiteral_def digits_value_def
  exponent_part_def pow10_def Let_def

lemma parseStringCoordinate_alt:
  "parseStringCoordinate s =
     (case rx_exec dms_regex (trim s) of
        None \<Rightarrow> Inl (InvalidFormat s)
      | Some match \<Rightarrow>
          if falsy (match 1) \<or> falsy (match 2) \<or> falsy (match 3) \<or> falsy (match 4)
          then Inl (InvalidFormat s)
          else Inr (round2 (hemisphere (the (match 4))
                      (dms_decimal (parseInt10 (the (match 1))) (parseInt10 (the (match 2)))
                                   (parseFloat (the (match 3)))))))"
  by (simp add: parseStringCoordinate_def round2_def hemisphere_def dms_decimal_def Let_def
           split: option.splits)

lemma dms_value:
  assumes "dms_parts (trim s) = Some (d, m, sec, h)"
  shows "parseStringCoordinate s
         = Inr (round2 (hemisphere [h] (dms_decimal (parseInt10 d) (parseInt10 m) (parseFloat sec))))"
proof -
  from dms_partsD [OF assms] obtain si fr where
    s: "trim s = d @ 176 # m @ 39 # si @ fr @ [34, h]" and sec: "sec = si @ fr"
    and d: "\<forall>c \<in> set d. isDigit c" "1 \<le> length d" "length d \<le> 3"
    and m: "\<forall>c \<in> set m. isDigit c" "1 \<le> length m" "length m \<le> 2"
    and si: "\<forall>c \<in> set si. isDigit c" "1 \<le> length si" "length si \<le> 2"
    and fr: "fr = [] \<or> (\<exists>fd. fr = 46 # fd \<and> fd \<noteq> [] \<and> (\<forall>c \<in> set fd. isDigit c))"
    and h: "is_NSEW h"
    by blast
  have e: "rx_exec dms_regex (trim s)
         = Some ((\<lambda>i. None)(1 \<mapsto> d, 2 \<mapsto> m, 3 \<mapsto> si @ fr, 4 \<mapsto> [h]))"
    unfolding s by (rule dms_match [OF d m si fr h])
  have ne: "d \<noteq> []" "m \<noteq> []" "si \<noteq> []"
    using d(2) m(2) si(2) by auto
  show ?thesis
    unfolding parseStringCoordinate_alt e using ne by (simp add: falsy_def sec)
qed


subsection \<open>Texts without a degree sign\<close>

lemma try_down_SomeD: "try_down lo n f = Some r \<Longrightarrow> \<exists>j \<le> n. f j = Some r"
proof (induction n)
  case 0
  then show ?case by (auto split: if_splits)
next
  case (Suc n)
  show ?case
  proof (cases "f (Suc n)")
    case None
    then have "try_down lo n f = Some r" using Suc.prems by (auto split: if_splits)
    then show ?thesis using Suc.IH by (auto intro: le_SucI)
  next
    case (Some x)
    then have "f (Suc n) = Some r" using Suc.prems by (auto split: if_splits)
    then show ?thesis by blast
  qed
qed

lemma dms_match_degree:
  assumes "rx_match dms_regex (s, c) k = Some r"
  shows "176 \<in> set s"
proof -
  obtain X where X: "dms_regex = Seq (Grp 1 (Rep 1 (Some 3) isDigit)) (Seq (Chr 176) X)"
    by (simp add: dms_regex_def)
  from assms obtain j where j: "rx_match (Seq (Chr 176) X)
      (drop j s, c(1 \<mapsto> take (length s - length (drop j s)) s)) k = Some r"
    unfolding X by (auto dest: try_down_SomeD simp: Let_def)
  have "\<not> (drop j s = [] \<or> hd (drop j s) \<noteq> 176)"
  proof
    assume "drop j s = [] \<or> hd (drop j s) \<noteq> 176"
    then have "rx_match (Seq (Chr 176) X)
        (drop j s, c(1 \<mapsto> take (length s - length (drop j s)) s)) k = None"
      by (rule m_chr_fail)
    with j show False by (simp only: option.distinct)
  qed
  then have "176 \<in> set (drop j s)" by (cases "drop j s") auto
  then show ?thesis by (rule in_set_dropD)
qed

lemma rx_exec_degree: "rx_exec dms_regex s = Some caps \<Longrightarrow> 176 \<in> set s"
proof (induction s)
  case Nil
  then show ?case using dms_match_degree [of "[]"] by auto
next
  case (Cons a s)
  show ?case
  proof (cases "rx_match dms_regex (a # s, \<lambda>i. None) (\<lambda>(s', caps). Some caps)")
    case None
    then show ?thesis using Cons by simp
  next
    case (Some x)
    then show ?thesis by (rule dms_match_degree)
  qed
qed

lemma set_trim: "set (trim s) \<subseteq> set s"
  by (auto simp: trim_def dest!: set_dropWhileD)

lemma no_degree_throws:
  assumes "176 \<notin> set s"
  shows "parseStringCoordinate s = Inl (InvalidFormat s)"
proof -
  have "176 \<notin> set (trim s)" using assms set_trim by blast
  then have "rx_exec dms_regex (trim s) = None"
    using rx_exec_degree [of "trim s"] by (cases "rx_exec dms_regex (trim s)") auto
  then show ?thesis by (simp add: parseStringCoordinate_alt)
qed

subsection \<open>Arithmetic of the examples\<close>

lemma dms_arith_1:
  "js_div (Math_round (js_mul (js_mul (js_add (js_add (double_of 23) (js_div (double_of 12) (Fin 60)))
       (js_div (double_of (61 / 2)) (Fin 3600))) (Fin (- 1))) (Fin 100))) (Fin 100)
   = Fin (- (3266517104727163 / 140737488355328))"
  by code_simp

lemma double_of_minus_2321: "double_of (- (2321 / 100)) = Fin (- (3266517104727163 / 140737488355328))"
  by code_simp

lemma dms_arith_2:
  "js_div (Math_round (js_mul (js_add (js_add (double_of 1) (js_div (double_of 0) (Fin 60)))
       (js_div (double_of (1800000000000001 / 100000000000000)) (Fin 3600))) (Fin 100))) (Fin 100)
   = Fin 1"
  by code_simp

lemma double_of_101: "double_of (101 / 100) = Fin (4548635623644201 / 4503599627370496)"
  by code_simp


section \<open>Properties of binary64 rounding and of the projection\<close>

lemma pow2_powi: "pow2 k = 2 powi k"
  by (simp add: pow2_def power_int_def field_simps)

lemma pow2_pos: "0 < pow2 k"
  by (simp add: pow2_powi)

lemma pow2_Suc: "pow2 (k + 1) = 2 * pow2 k"
  by (simp add: pow2_powi power_int_add)

lemma pow2_pred: "2 * pow2 (k - 1) = pow2 k"
  using pow2_Suc [of "k - 1"] by simp

lemma pow2_mono: "a \<le> b \<Longrightarrow> pow2 a \<le> pow2 b"
  by (simp add: pow2_powi power_int_increasing)

lemma ilog2_lower: "0 < x \<Longrightarrow> pow2 (ilog2 x) \<le> x"
proof (induction x rule: ilog2.induct)
  case (1 x)
  show ?case
  proof (cases "2 \<le> x")
    case True
    then have "pow2 (ilog2 (x / 2)) \<le> x / 2" using 1 by simp
    then show ?thesis using True 1(3) by (subst ilog2.simps) (simp add: pow2_Suc)
  next
    case False
    show ?thesis
    proof (cases "x < 1")
      case True
      then have "pow2 (ilog2 (2 * x)) \<le> 2 * x" using 1 False by simp
      then have "2 * pow2 (ilog2 (2 * x) - 1) \<le> 2 * x" by (simp only: pow2_pred)
      then show ?thesis using True False 1(3) by (subst ilog2.simps) simp
    next
      case nl: False
      then show ?thesis using False 1(3) by (subst ilog2.simps) (simp add: pow2_def)
    qed
  qed
qed

lemma round_half_even_error: "\<bar>of_int (round_half_even t) - t\<bar> \<le> 1 / 2"
proof -
  have "of_int \<lfloor>t\<rfloor> \<le> t" "t < of_int \<lfloor>t\<rfloor> + 1" by linarith+
  then show ?thesis
    by (auto simp: round_half_even_def Let_def)
qed

lemma double_of_near:
  assumes "\<bar>z\<bar> < 2 ^ 53"
  shows "\<exists>r. double_of z = Fin r \<and> \<bar>r - z\<bar> \<le> 1 / 2"
proof (cases "z = 0")
  case True
  then show ?thesis by (simp add: double_of_def)
next
  case False
  define e where "e = ilog2 \<bar>z\<bar>"
  define q where "q = max e (- 1022) - 52"
  define m where "m = round_half_even (z / pow2 q)"
  have p53: "pow2 53 = 2 ^ 53" by (simp add: pow2_def)
  have p0: "pow2 0 = 1" by (simp add: pow2_def)
  have "pow2 e \<le> \<bar>z\<bar>" unfolding e_def using False by (intro ilog2_lower) simp
  then have "pow2 e < pow2 53" using assms unfolding p53 by linarith
  then have "\<not> 53 \<le> e" using pow2_mono [of 53 e] by linarith
  then have e: "e < 53" by simp
  then have q: "q \<le> 0" by (simp add: q_def)
  have p1: "pow2 q \<le> 1" using pow2_mono [OF q] unfolding p0 .
  have pq: "0 < pow2 q" by (rule pow2_pos)
  have ov: "\<not> (1024 \<le> e \<or> (e = 1023 \<and> 2 ^ 53 \<le> \<bar>m\<bar>))" using e by simp
  have d: "double_of z = Fin (of_int m * pow2 q)"
    unfolding double_of_def Let_def e_def [symmetric] q_def [symmetric] m_def [symmetric]
    using False ov by (simp only: if_False)
  have "\<bar>of_int m - z / pow2 q\<bar> \<le> 1 / 2" unfolding m_def by (rule round_half_even_error)
  then have "\<bar>of_int m - z / pow2 q\<bar> * pow2 q \<le> 1 / 2 * pow2 q"
    using pq by (intro mult_right_mono) simp_all
  moreover have "of_int m * pow2 q - z = (of_int m - z / pow2 q) * pow2 q"
    using pq by (simp add: left_diff_distrib)
  then have "\<bar>of_int m * pow2 q - z\<bar> = \<bar>of_int m - z / pow2 q\<bar> * pow2 q"
    using pq by (simp only: abs_mult abs_of_pos)
  ultimately have "\<bar>of_int m * pow2 q - z\<bar> \<le> 1 / 2" using p1 by linarith
  with d show ?thesis by blast
qed

lemma half_width_interval:
  assumes "\<bar>v\<bar> \<le> 2 ^ 52"
  shows "js_less (js_sub (Fin v) (Fin 1000)) (Fin v)
         \<and> js_less (Fin v) (js_add (Fin v) (Fin 1000))
         \<and> js_less (js_sub (Fin v) (Fin 1000)) (js_add (Fin v) (Fin 1000))"
proof -
  have "\<bar>v - 1000\<bar> < 2 ^ 53" "\<bar>v + 1000\<bar> < 2 ^ 53" using assms by simp_all
  then obtain a b where a: "double_of (v - 1000) = Fin a" "\<bar>a - (v - 1000)\<bar> \<le> 1 / 2"
    and b: "double_of (v + 1000) = Fin b" "\<bar>b - (v + 1000)\<bar> \<le> 1 / 2"
    using double_of_near by blast
  have "a < v" "v < b" "a < b" using a(2) b(2) by linarith+
  then show ?thesis by (simp add: js_sub_def a(1) b(1))
qed

lemma calcXValue_range:
  assumes "\<bar>l\<bar> \<le> 180"
  shows "\<exists>x. calcXValue (Fin l) = Fin x \<and> \<bar>x\<bar> \<le> 2 ^ 52"
proof -
  let ?pi = "884279719003555 / 281474976710656 :: rat"
  let ?z = "l * 884279719003555 / 281474976710656"
  have "\<bar>?z\<bar> = \<bar>l\<bar> * ?pi" by (simp add: abs_mult)
  also have "\<dots> \<le> 180 * ?pi" using assms by (intro mult_right_mono) simp_all
  finally have z1: "\<bar>?z\<bar> \<le> 720" by simp
  then have "\<bar>?z\<bar> < 2 ^ 53" by simp
  then obtain r1 where r1: "double_of ?z = Fin r1" "\<bar>r1 - ?z\<bar> \<le> 1 / 2"
    using double_of_near by blast
  have b1: "\<bar>r1\<bar> \<le> 900" using r1(2) z1 by linarith
  have "\<bar>r1 / 180\<bar> = \<bar>r1\<bar> / 180" by simp
  then have z2: "\<bar>r1 / 180\<bar> \<le> 5" using b1 by simp
  then have "\<bar>r1 / 180\<bar> < 2 ^ 53" by simp
  then obtain r2 where r2: "double_of (r1 / 180) = Fin r2" "\<bar>r2 - r1 / 180\<bar> \<le> 1 / 2"
    using double_of_near by blast
  have b2: "\<bar>r2\<bar> \<le> 6" using r2(2) z2 by linarith
  have "\<bar>6378137 * r2\<bar> = 6378137 * \<bar>r2\<bar>" by (simp add: abs_mult)
  then have z3: "\<bar>6378137 * r2\<bar> \<le> 38268822" using b2 by simp
  then have "\<bar>6378137 * r2\<bar> < 2 ^ 53" by simp
  then obtain r3 where r3: "double_of (6378137 * r2) = Fin r3" "\<bar>r3 - 6378137 * r2\<bar> \<le> 1 / 2"
    using double_of_near by blast
  have "\<bar>r3\<bar> \<le> 38268823" using r3(2) z3 by linarith
  then have "\<bar>r3\<bar> \<le> 2 ^ 52" by simp
  moreover have "calcXValue (Fin l) = Fin r3"
    by (simp add: calcXValue_def RADIUS_def Math_PI_def r1(1) r2(1) r3(1))
  ultimately show ?thesis by blast
qed

lemma south_pole_angle:
  "js_add (js_div Math_PI (Fin 4)) (js_div (js_div (js_mul (Fin (- 90)) Math_PI) (Fin 180)) (Fin 2))
   = Fin 0"
  by code_simp

lemma calcYValue_south_pole: "calcYValue M (Fin (- 90)) = NegInf"
  by (simp add: calcYValue_def south_pole_angle RADIUS_def signed_inf_def)

lemma equator_angle:
  "js_add (js_div Math_PI (Fin 4)) (js_div (js_div (js_mul (Fin 0) Math_PI) (Fin 180)) (Fin 2))
   = Fin (884279719003555 / 1125899906842624)"
  by code_simp


section \<open>Properties of the batch scheduler\<close>

subsection \<open>One batch\<close>

lemma coord_attempt: "coord (attempt M net n c) = c"
  by (simp add: attempt_def Let_def split: sum.splits)

lemma settle_alt:
  "settle st r = (if rfeatures r = None then Inl TypeError
                  else if needs_retry r then Inr (st\<lparr> queue := requeued r # queue st \<rparr>)
                  else Inr (st\<lparr> results := results st @ [r] \<rparr>))"
  by (auto simp: settle_def needs_retry_def requeued_def layer_def split: option.splits)

lemma settle_all_alt:
  "settle_all st brs =
     (if \<exists>r \<in> set brs. rfeatures r = None then Inl TypeError
      else Inr (st\<lparr> queue := rev (map requeued (filter needs_retry brs)) @ queue st,
                  results := results st @ filter (\<lambda>r. \<not> needs_retry r) brs \<rparr>))"
  by (induction brs arbitrary: st) (auto simp: settle_alt)

lemma map_coord_batch_results: "map coord (batch_results M net bs st) = take bs (queue st)"
proof -
  have h: "map coord (map (\<lambda>(i, c). attempt M net i c) zs) = map snd zs" for zs
    by (simp add: coord_attempt split_def)
  show ?thesis unfolding batch_results_def h by (rule map_snd_zip) simp
qed

lemma batch_step_alt:
  "batch_step M net bs st =
     (if \<exists>r \<in> set (batch_results M net bs st). rfeatures r = None then Inl TypeError
      else Inr (batch_next M net bs st))"
  by (simp add: batch_step_def Let_def settle_all_alt batch_results_def batch_next_def)

lemma weight_requeued: "needs_retry r \<Longrightarrow> Suc (weight (requeued r)) = weight (coord r)"
  by (auto simp: needs_retry_def weight_def requeued_def layer_def nullish_def)

lemma potential_retry:
  assumes "\<And>r. P (requeued r) = P (coord r)"
  shows "potential P (map requeued (filter needs_retry brs)) + length (filter P (map coord brs))
           \<le> potential P (map coord brs)"
proof (induction brs)
  case Nil
  then show ?case by (simp add: potential_def)
next
  case (Cons r brs)
  then show ?case
    using weight_requeued [of r] assms [of r]
    by (auto simp: potential_def weight_def)
qed

lemma potential_append: "potential P (xs @ ys) = potential P xs + potential P ys"
  by (simp add: potential_def)

lemma potential_rev: "potential P (rev xs) = potential P xs"
  by (simp add: potential_def rev_filter [symmetric] rev_map [symmetric])

lemma potential_step:
  assumes "\<And>r. P (requeued r) = P (coord r)"
  shows "length (filter P (attempted (batch_next M net bs st))) + potential P (queue (batch_next M net bs st))
           \<le> length (filter P (attempted st)) + potential P (queue st)"
proof -
  have "potential P (queue st) = potential P (take bs (queue st)) + potential P (drop bs (queue st))"
    by (metis potential_append append_take_drop_id)
  moreover have "potential P (map requeued (filter needs_retry (batch_results M net bs st)))
      + length (filter P (take bs (queue st))) \<le> potential P (take bs (queue st))"
    using potential_retry [OF assms, of "batch_results M net bs st"]
    by (simp add: map_coord_batch_results)
  ultimately show ?thesis
    by (simp add: batch_next_def potential_append potential_rev)
qed

lemma potential_decreases:
  assumes "0 < bs" "queue st \<noteq> []"
  shows "potential (\<lambda>t. True) (queue (batch_next M net bs st)) < potential (\<lambda>t. True) (queue st)"
proof -
  have "0 < length (queue st)" using assms by simp
  then have "1 \<le> min (length (queue st)) bs" using assms(1) by linarith
  moreover have "length (attempted (batch_next M net bs st))
      = length (attempted st) + min (length (queue st)) bs"
    by (simp add: batch_next_def)
  moreover have "length (attempted (batch_next M net bs st))
      + potential (\<lambda>t. True) (queue (batch_next M net bs st))
      \<le> length (attempted st) + potential (\<lambda>t. True) (queue st)"
    using potential_step [of "\<lambda>t. True" M net bs st] by simp
  ultimately show ?thesis by linarith
qed

lemma attempt_lists_features:
  "lists_features net \<Longrightarrow> rfeatures (attempt M net n t) \<noteq> None"
  by (auto simp: attempt_def Let_def lists_features_def split: sum.splits)

lemma batch_step_lists_features:
  assumes "lists_features net"
  shows "batch_step M net bs st = Inr (batch_next M net bs st)"
proof -
  have "rfeatures r \<noteq> None" if "r \<in> set (batch_results M net bs st)" for r
    using that attempt_lists_features [OF assms] by (auto simp: batch_results_def)
  then show ?thesis by (auto simp: batch_step_alt)
qed

lemma batch_loop_rule:
  assumes "0 < bs" and "I st"
    and "\<And>s. I s \<Longrightarrow> queue s \<noteq> [] \<Longrightarrow> I (batch_next M net bs s)"
  shows "\<exists>out. batch_loop M net bs st = Some out
           \<and> (\<forall>s'. out = Inr s' \<longrightarrow> I s' \<and> queue s' = [])
           \<and> (lists_features net \<longrightarrow> (\<exists>s'. out = Inr s'))"
  using assms(2)
proof (induction st rule: measure_induct_rule [of "\<lambda>s. potential (\<lambda>t. True) (queue s)"])
  case (less s)
  show ?case
  proof (cases "queue s = []")
    case True
    then show ?thesis using less.prems by (subst batch_loop.simps) simp
  next
    case False
    show ?thesis
    proof (cases "\<exists>r \<in> set (batch_results M net bs s). rfeatures r = None")
      case True
      then have e: "batch_step M net bs s = Inl TypeError" by (simp add: batch_step_alt)
      have "\<not> lists_features net"
        using True e batch_step_lists_features [of net M bs s] by auto
      then show ?thesis using False e by (subst batch_loop.simps) simp
    next
      case ok: False
      then have e: "batch_step M net bs s = Inr (batch_next M net bs s)" by (simp add: batch_step_alt)
      have "\<exists>out. batch_loop M net bs (batch_next M net bs s) = Some out
           \<and> (\<forall>s'. out = Inr s' \<longrightarrow> I s' \<and> queue s' = [])
           \<and> (lists_features net \<longrightarrow> (\<exists>s'. out = Inr s'))"
        by (rule less.IH [OF potential_decreases [OF assms(1) False] assms(3) [OF less.prems False]])
      then show ?thesis using False e by (subst batch_loop.simps) simp
    qed
  qed
qed

lemma coordinate_of_requeued: "coordinate_of (requeued r) = coordinate_of (coord r)"
  by (simp add: coordinate_of_def requeued_def)

lemma layer_task: "layer (task c l) = l"
  by (simp add: layer_def task_def nullish_def)

lemma coordinate_of_task: "coordinate_of (task c l) = c"
  by (simp add: coordinate_of_def task_def)

lemma initial_alt: "initial cs = \<lparr> queue = map (\<lambda>c. task c 0) cs, results = [], attempted = [] \<rparr>"
  by (simp add: initial_def task_def)

lemma coordinates_preserved:
  "mset (map coordinate_of (queue (batch_next M net bs st)))
     + mset (map (\<lambda>r. coordinate_of (coord r)) (results (batch_next M net bs st)))
   = mset (map coordinate_of (queue st)) + mset (map (\<lambda>r. coordinate_of (coord r)) (results st))"
proof -
  let ?brs = "batch_results M net bs st"
  have "mset (map coordinate_of (map requeued (filter needs_retry brs)))
        + mset (map (\<lambda>r. coordinate_of (coord r)) (filter (\<lambda>r. \<not> needs_retry r) brs))
      = mset (map (\<lambda>r. coordinate_of (coord r)) brs)" for brs
    by (induction brs) (auto simp: coordinate_of_requeued)
  then have "mset (map coordinate_of (map requeued (filter needs_retry ?brs)))
        + mset (map (\<lambda>r. coordinate_of (coord r)) (filter (\<lambda>r. \<not> needs_retry r) ?brs))
      = mset (map (\<lambda>r. coordinate_of (coord r)) ?brs)" .
  also have "\<dots> = mset (map coordinate_of (take bs (queue st)))"
    using map_coord_batch_results [of M net bs st, symmetric] by (simp add: o_def)
  finally have h: "mset (map coordinate_of (map requeued (filter needs_retry ?brs)))
        + mset (map (\<lambda>r. coordinate_of (coord r)) (filter (\<lambda>r. \<not> needs_retry r) ?brs))
      = mset (map coordinate_of (take bs (queue st)))" .
  have "mset (map coordinate_of (queue st))
      = mset (map coordinate_of (take bs (queue st))) + mset (map coordinate_of (drop bs (queue st)))"
    by (metis append_take_drop_id map_append mset_append)
  then show ?thesis
    using h by (simp add: batch_next_def multiset.map_comp)
qed


lemma settle_cases:
  "(rfeatures r = None \<and> settle st r = Inl TypeError)
   \<or> settle st r = Inr (st\<lparr> results := results st @ [r] \<rparr>)
   \<or> (layer (coord r) < 5 \<and> rfeatures r = Some []
      \<and> settle st r
          = Inr (st\<lparr> queue := (coord r)\<lparr> mapLayerId := Some (layer (coord r) + 1) \<rparr> # queue st \<rparr>))"
  by (auto simp: settle_def layer_def split: option.splits)

lemma potential_initial:
  "potential (\<lambda>t. coordinate_of t = c) (map (\<lambda>c. task c 0) cs) = 6 * length (filter (\<lambda>x. x = c) cs)"
  by (induction cs) (simp_all add: potential_def coordinate_of_task weight_def layer_task)


lemma batch_step_single:
  assumes "0 < bs"
  shows "batch_step M net bs \<lparr> queue = [t], results = rs, attempted = tr \<rparr>
         = settle \<lparr> queue = [], results = rs, attempted = tr @ [t] \<rparr> (attempt M net (length tr) t)"
  using assms by (simp add: batch_step_def Let_def split: sum.splits)



subsection \<open>A batch size of zero\<close>

text \<open>
  With a batch size of zero \<^verbatim>\<open>splice\<close> removes nothing, so the loop never ends on a
  non-empty input: the properties of a run are stated for positive batch sizes.
\<close>

lemma batch_step_zero: "batch_step M net 0 st = Inr st"
  by (simp add: batch_step_def)

lemma batch_loop_zero_returns:
  assumes "batch_loop M net bs st = Some out"
  shows "bs = 0 \<longrightarrow> queue st = []"
proof (rule batch_loop.raw_induct [where P = "\<lambda>M net bs st out. bs = 0 \<longrightarrow> queue st = []", OF _ assms])
  fix f :: "Math_impl \<Rightarrow> network \<Rightarrow> nat \<Rightarrow> sched \<Rightarrow> (run_error + sched) option"
    and M net bs st out
  assume ih: "\<And>M net bs st out. f M net bs st = Some out \<Longrightarrow> bs = 0 \<longrightarrow> queue st = []"
    and r: "(if 0 < length (queue st)
             then (if isl (batch_step M net bs st)
                   then Some (Inl (projl (batch_step M net bs st)))
                   else f M net bs (projr (batch_step M net bs st)))
             else Some (Inr st)) = Some out"
  show "bs = 0 \<longrightarrow> queue st = []"
  proof
    assume z: "bs = 0"
    show "queue st = []"
    proof (rule ccontr)
      assume n: "queue st \<noteq> []"
      then have "f M net 0 st = Some out" using r z by (simp add: batch_step_zero)
      from ih [OF this] n show False by simp
    qed
  qed
qed

lemma batch_loop_zero_diverges: "queue st \<noteq> [] \<Longrightarrow> batch_loop M net 0 st = None"
  using batch_loop_zero_returns [of M net 0 st] by (cases "batch_loop M net 0 st") auto

lemma runInBatches_zero_diverges:
  "coordinates \<noteq> [] \<Longrightarrow> runInBatches M net coordinates 0 = None"
  by (simp add: runInBatches_def run_def batch_loop_zero_diverges initial_def)

subsection \<open>Attempts on the example coordinates\<close>

lemma double_of_4743: "double_of (4743 / 100) = Fin (6675179072693207 / 140737488355328)"
  by code_simp

lemma attempt_malformed:
  "parseCoordinate (latitude t) = None \<or> parseCoordinate (longitude t) = None
   \<Longrightarrow> attempt M net n t = \<lparr> coord = t, rfeatures = Some [] \<rparr>"
  by (auto simp: attempt_def Let_def)

lemma attempt_fetched:
  "parseCoordinate (latitude t) = Some lat \<Longrightarrow> parseCoordinate (longitude t) = Some lon
   \<Longrightarrow> fetchDepthForEnvelope net n (latLonToEnvelope M lat lon None) (layer t) = Inr res
   \<Longrightarrow> attempt M net n t = \<lparr> coord = t, rfeatures = features res \<rparr>"
  by (simp add: attempt_def Let_def layer_def)


lemma para_coast_latitude:
  "parseCoordinate (str ''-2.21'') = Some (Fin (- (2488238794122199 / 1125899906842624)))"
  by (simp add: parse_defs double_of_221)

lemma malformed_latitude: "parseCoordinate (str ''abc'') = None"
  by (simp add: parse_defs)


lemma para_coast_longitude:
  "parseCoordinate (str ''-47.43'') = Some (Fin (- (6675179072693207 / 140737488355328)))"
  by (simp add: parse_defs double_of_4743)

lemma attempt_para_coast:
  "attempt M (layer_service k) n (task para_coast l)
   = \<lparr> coord = task para_coast l, rfeatures = Some (if l < k then [] else [depth_feature]) \<rparr>"
proof -
  have "fetchDepthForEnvelope (layer_service k) n e l
        = Inr (response_with (if l < k then [] else [depth_feature]))" for e
    by (simp add: fetchDepthForEnvelope_def layer_service_def)
  then show ?thesis
    using attempt_fetched [of "task para_coast l" _ _ "layer_service k" n M]
    by (simp add: task_def para_coast_def para_coast_latitude para_coast_longitude layer_def
          nullish_def response_with_def)
qed


lemma attempt_task_malformed:
  "attempt M net n (task malformed l) = \<lparr> coord = task malformed l, rfeatures = Some [] \<rparr>"
  by (rule attempt_malformed) (simp add: task_def malformed_def malformed_latitude)

lemma upt_6: "[0 ..< 6] = [0, 1, 2, 3, 4, Suc 4]"
  by (simp add: upt_rec)


lemma lists_features_layer_service: "lists_features (layer_service k)"
  by (auto simp: lists_features_def fetchDepthForEnvelope_def layer_service_def response_with_def)

lemma lists_features_offline: "lists_features offline"
  by (simp add: lists_features_def fetchDepthForEnvelope_def offline_def)

lemma attempt_broken_service:
  "attempt M broken_service n (task para_coast l) = \<lparr> coord = task para_coast l, rfeatures = None \<rparr>"
proof -
  have "fetchDepthForEnvelope broken_service n e l
        = Inr \<lparr> displayFieldName = [], features = None, fieldAliases = [], response_fields = [] \<rparr>" for e
    by (simp add: fetchDepthForEnvelope_def broken_service_def)
  then show ?thesis
    using attempt_fetched [of "task para_coast l" _ _ broken_service n M]
    by (simp add: task_def para_coast_def para_coast_latitude para_coast_longitude layer_def nullish_def)
qed

section \<open>Claims about the batch scheduler\<close>

text \<open>
  C3, as the program has it: for every input list of \<open>N\<close> coordinates, every positive
  batch size and every service whose successful answers carry a \<^verbatim>\<open>features\<close> array,
  \<^verbatim>\<open>runInBatches\<close> returns exactly \<open>N\<close> results whose coordinates are, as a multiset, the
  input coordinates; the order may differ, and neither a coordinate that does not parse
  nor a failing fetch changes this.
\<close>

theorem runInBatches_one_result_per_coordinate:
  assumes "0 < batchSize" and "lists_features net"
  shows "\<exists>rs. runInBatches M net coordinates batchSize = Some (Inr rs)
            \<and> length rs = length coordinates
            \<and> mset (map (\<lambda>r. coordinate_of (coord r)) rs) = mset coordinates"
proof -
  let ?I = "\<lambda>s. mset (map coordinate_of (queue s))
                 + mset (map (\<lambda>r. coordinate_of (coord r)) (results s)) = mset coordinates"
  have "\<exists>out. batch_loop M net batchSize (initial coordinates) = Some out
           \<and> (\<forall>s'. out = Inr s' \<longrightarrow> ?I s' \<and> queue s' = [])
           \<and> (lists_features net \<longrightarrow> (\<exists>s'. out = Inr s'))"
  proof (rule batch_loop_rule [of batchSize ?I "initial coordinates" M net, OF assms(1)])
    show "?I (initial coordinates)"
      by (simp add: initial_alt o_def coordinate_of_task)
    show "?I (batch_next M net batchSize s)" if "?I s" "queue s \<noteq> []" for s
      using that(1) by (simp only: coordinates_preserved)
  qed
  then obtain s' where s': "batch_loop M net batchSize (initial coordinates) = Some (Inr s')"
      "?I s'" "queue s' = []"
    using assms(2) by blast
  from s'(2,3) have m: "mset (map (\<lambda>r. coordinate_of (coord r)) (results s')) = mset coordinates"
    by simp
  then have "size (mset (map (\<lambda>r. coordinate_of (coord r)) (results s'))) = size (mset coordinates)"
    by simp
  then have "length (results s') = length coordinates" by simp
  with m s'(1) show ?thesis by (simp add: runInBatches_def run_def)
qed

theorem runInBatches_one_result_per_coordinate_witness:
  "0 < (1::nat) \<and> lists_features offline
   \<and> (\<exists>rs. runInBatches flat_math offline [para_coast, malformed] 1 = Some (Inr rs)
          \<and> length rs = length [para_coast, malformed]
          \<and> mset (map (\<lambda>r. coordinate_of (coord r)) rs) = mset [para_coast, malformed])"
  using runInBatches_one_result_per_coordinate [of 1 offline flat_math "[para_coast, malformed]"]
    lists_features_offline
  by simp

text \<open>
  The claim as the specification states it, for every run, fails in two ways: an answer
  with status 200 whose body has no \<^verbatim>\<open>features\<close> array makes the loop over the batch
  results throw, so the run rejects and returns no results; and with a batch size of zero
  the run never returns.
\<close>

theorem missing_features_counterexample:
  "runInBatches flat_math broken_service [para_coast] 5 = Some (Inl TypeError)
   \<and> runInBatches flat_math offline [para_coast] 0 = None"
proof
  have "batch_step flat_math broken_service 5 (initial [para_coast]) = Inl TypeError"
    by (simp add: initial_alt batch_step_single settle_alt attempt_broken_service)
  then show "runInBatches flat_math broken_service [para_coast] 5 = Some (Inl TypeError)"
    unfolding runInBatches_def run_def
    by (subst batch_loop.simps) (simp add: initial_alt)
  show "runInBatches flat_math offline [para_coast] 0 = None"
    by (rule runInBatches_zero_diverges) simp
qed

text \<open>
  C5, as the program has it: for every finite input list and every positive batch size
  the run ends.  It ends with an empty queue, no input coordinate having been dequeued
  more than 6 times, unless a result with undefined features makes it reject, which no
  service whose answers carry a \<^verbatim>\<open>features\<close> array can cause.  The loop over the batch
  results throws on undefined features, and otherwise either emits the result or puts
  the coordinate back with its layer raised by exactly one, the latter only while the
  layer is below 5.
\<close>

theorem runInBatches_terminates:
  assumes "0 < batchSize"
  shows "(\<exists>out. run M net coordinates batchSize = Some out
            \<and> (\<forall>s. out = Inr s \<longrightarrow> queue s = []
                 \<and> (\<forall>c. length (filter (\<lambda>t. coordinate_of t = c) (attempted s))
                        \<le> 6 * length (filter (\<lambda>x. x = c) coordinates)))
            \<and> (lists_features net \<longrightarrow> (\<exists>s. out = Inr s)))
         \<and> (\<forall>st r. (rfeatures r = None \<and> settle st r = Inl TypeError)
                 \<or> settle st r = Inr (st\<lparr> results := results st @ [r] \<rparr>)
                 \<or> (layer (coord r) < 5
                    \<and> settle st r
                        = Inr (st\<lparr> queue := (coord r)\<lparr> mapLayerId := Some (layer (coord r) + 1) \<rparr>
                                             # queue st \<rparr>)))"
proof (intro conjI allI)
  let ?P = "\<lambda>c t. coordinate_of t = c"
  let ?I = "\<lambda>s. \<forall>c. length (filter (?P c) (attempted s)) + potential (?P c) (queue s)
                       \<le> 6 * length (filter (\<lambda>x. x = c) coordinates)"
  have "\<exists>out. batch_loop M net batchSize (initial coordinates) = Some out
           \<and> (\<forall>s'. out = Inr s' \<longrightarrow> ?I s' \<and> queue s' = [])
           \<and> (lists_features net \<longrightarrow> (\<exists>s'. out = Inr s'))"
  proof (rule batch_loop_rule [of batchSize ?I "initial coordinates" M net, OF assms])
    show "?I (initial coordinates)"
      by (simp add: initial_alt potential_initial)
    show "?I (batch_next M net batchSize s)" if i: "?I s" and "queue s \<noteq> []" for s
    proof
      fix c
      have "length (filter (?P c) (attempted (batch_next M net batchSize s)))
              + potential (?P c) (queue (batch_next M net batchSize s))
            \<le> length (filter (?P c) (attempted s)) + potential (?P c) (queue s)"
        by (rule potential_step) (simp add: coordinate_of_requeued)
      also have "\<dots> \<le> 6 * length (filter (\<lambda>x. x = c) coordinates)"
        using i by blast
      finally show "length (filter (?P c) (attempted (batch_next M net batchSize s)))
              + potential (?P c) (queue (batch_next M net batchSize s))
            \<le> 6 * length (filter (\<lambda>x. x = c) coordinates)" .
    qed
  qed
  then obtain out where out: "batch_loop M net batchSize (initial coordinates) = Some out"
    and inv: "\<And>s'. out = Inr s' \<Longrightarrow> ?I s' \<and> queue s' = []"
    and wf: "lists_features net \<longrightarrow> (\<exists>s'. out = Inr s')"
    by blast
  have "queue s = [] \<and> (\<forall>c. length (filter (?P c) (attempted s))
                        \<le> 6 * length (filter (\<lambda>x. x = c) coordinates))" if "out = Inr s" for s
  proof
    show "queue s = []" using inv [OF that] by simp
    show "\<forall>c. length (filter (?P c) (attempted s)) \<le> 6 * length (filter (\<lambda>x. x = c) coordinates)"
    proof
      fix c
      have "length (filter (?P c) (attempted s)) + potential (?P c) (queue s)
            \<le> 6 * length (filter (\<lambda>x. x = c) coordinates)"
        using inv [OF that] by blast
      then show "length (filter (?P c) (attempted s)) \<le> 6 * length (filter (\<lambda>x. x = c) coordinates)"
        by linarith
    qed
  qed
  with out wf show "\<exists>out. run M net coordinates batchSize = Some out
            \<and> (\<forall>s. out = Inr s \<longrightarrow> queue s = []
                 \<and> (\<forall>c. length (filter (\<lambda>t. coordinate_of t = c) (attempted s))
                        \<le> 6 * length (filter (\<lambda>x. x = c) coordinates)))
            \<and> (lists_features net \<longrightarrow> (\<exists>s. out = Inr s))"
    unfolding run_def by blast
next
  fix st r
  show "(rfeatures r = None \<and> settle st r = Inl TypeError)
                 \<or> settle st r = Inr (st\<lparr> results := results st @ [r] \<rparr>)
                 \<or> (layer (coord r) < 5
                    \<and> settle st r
                        = Inr (st\<lparr> queue := (coord r)\<lparr> mapLayerId := Some (layer (coord r) + 1) \<rparr>
                                             # queue st \<rparr>))"
    using settle_cases [of r st] by blast
qed

theorem runInBatches_terminates_witness:
  "0 < (1::nat) \<and> lists_features offline
   \<and> (\<exists>s. run flat_math offline [para_coast, malformed] 1 = Some (Inr s) \<and> queue s = []
          \<and> length (filter (\<lambda>t. coordinate_of t = malformed) (attempted s))
              \<le> 6 * length (filter (\<lambda>x. x = malformed) [para_coast, malformed]))"
proof -
  have "\<exists>out. run flat_math offline [para_coast, malformed] 1 = Some out
            \<and> (\<forall>s. out = Inr s \<longrightarrow> queue s = []
                 \<and> (\<forall>c. length (filter (\<lambda>t. coordinate_of t = c) (attempted s))
                        \<le> 6 * length (filter (\<lambda>x. x = c) [para_coast, malformed])))
            \<and> (lists_features offline \<longrightarrow> (\<exists>s. out = Inr s))"
    using runInBatches_terminates [of 1 flat_math offline "[para_coast, malformed]"] by simp
  then obtain s where "run flat_math offline [para_coast, malformed] 1 = Some (Inr s)"
    and "queue s = []"
    and "\<And>c. length (filter (\<lambda>t. coordinate_of t = c) (attempted s))
                   \<le> 6 * length (filter (\<lambda>x. x = c) [para_coast, malformed])"
    using lists_features_offline by blast
  then show ?thesis using lists_features_offline by blast
qed

text \<open>
  The claim as the specification states it fails on a body without a \<^verbatim>\<open>features\<close>
  array: the result is neither emitted nor put back, the run rejects in its first batch
  while a coordinate is still queued; and with a batch size of zero the run never ends.
\<close>

theorem rejected_run_counterexample:
  "run flat_math broken_service [para_coast, malformed] 1 = Some (Inl TypeError)
   \<and> settle (initial [malformed]) \<lparr> coord = task para_coast 0, rfeatures = None \<rparr> = Inl TypeError
   \<and> run flat_math offline [para_coast] 0 = None"
proof (intro conjI)
  have "batch_step flat_math broken_service 1 (initial [para_coast, malformed]) = Inl TypeError"
    by (simp add: initial_alt batch_step_def Let_def settle_alt attempt_broken_service)
  then show "run flat_math broken_service [para_coast, malformed] 1 = Some (Inl TypeError)"
    unfolding run_def by (subst batch_loop.simps) (simp add: initial_alt)
  show "settle (initial [malformed]) \<lparr> coord = task para_coast 0, rfeatures = None \<rparr> = Inl TypeError"
    by (simp add: settle_alt)
  show "run flat_math offline [para_coast] 0 = None"
    unfolding run_def by (rule batch_loop_zero_diverges) (simp add: initial_alt)
qed






text \<open>
  C2: a coordinate whose latitude or longitude does not parse is meant to receive its
  empty result on its first dequeue.  The attempt does return at once, without a fetch,
  but the loop over the batch results treats its empty feature list like any other: the
  run below dequeues the malformed coordinate six times, on the layers 0 to 5, before it
  emits the result.
\<close>

theorem malformed_coordinate_is_requeued:
  "run flat_math (layer_service 0) [para_coast, malformed] 1
   = Some (Inr \<lparr> queue = [],
            results = [\<lparr> coord = task para_coast 0, rfeatures = Some [depth_feature] \<rparr>,
                       \<lparr> coord = task malformed 5, rfeatures = Some [] \<rparr>],
            attempted = [task para_coast 0, task malformed 0, task malformed 1, task malformed 2,
                         task malformed 3, task malformed 4, task malformed 5] \<rparr>)"
proof -
  have t: "\<lparr> latitude = latitude c, longitude = longitude c, mapLayerId = Some l \<rparr> = task c l" for c l
    by (simp add: task_def)
  have u: "(task c l)\<lparr> mapLayerId := Some j \<rparr> = task c j" for c l j
    by (simp add: task_def)
  show ?thesis
    by (simp add: run_def initial_def t u batch_loop.simps batch_step_def Let_def settle_def
          attempt_para_coast attempt_task_malformed layer_task [unfolded layer_def] upt_rec)
       (simp add: eval_nat_numeral)
qed

section \<open>Claims about the decimal parser\<close>

text \<open>
  C9, as the program has it: \<^verbatim>\<open>parseCoordinate\<close> replaces the first comma of its input with
  a dot and parses the result with \<^verbatim>\<open>parseFloat\<close>, which reads the longest numeric prefix;
  it never raises, it returns a number for every decimal text, and it returns \<^verbatim>\<open>null\<close>
  exactly when the text has no numeric prefix.  In particular \<^verbatim>\<open>"-2,21"\<close> gives the
  binary64 number \<open>-2.21\<close> and \<^verbatim>\<open>"abc"\<close> gives \<^verbatim>\<open>null\<close>.
\<close>

theorem parseCoordinate_comma_and_null:
  "(parseCoordinate v = None \<longleftrightarrow> \<not> numeric_prefix (js_replace (str '','') (str ''.'') v))
   \<and> (decimal_text v \<longrightarrow> parseCoordinate v \<noteq> None)
   \<and> (44 \<notin> set a \<longrightarrow>
        parseCoordinate (a @ 44 # b)
        = (if isNaN (parseFloat (a @ 46 # b)) then None else Some (parseFloat (a @ 46 # b))))
   \<and> (44 \<notin> set v \<longrightarrow>
        parseCoordinate v = (if isNaN (parseFloat v) then None else Some (parseFloat v)))
   \<and> parseCoordinate (str ''-2,21'') = Some (double_of (- (221 / 100)))
   \<and> parseCoordinate (str ''abc'') = None"
proof (intro conjI impI)
  show n: "parseCoordinate v = None \<longleftrightarrow> \<not> numeric_prefix (js_replace (str '','') (str ''.'') v)"
    by (simp add: parseCoordinate_def Let_def isNaN_parseFloat)
  show "parseCoordinate (str ''-2,21'') = Some (double_of (- (221 / 100)))"
    by (simp add: parse_defs double_of_221 double_of_minus_221)
  show "parseCoordinate (str ''abc'') = None"
    by (simp add: parse_defs)
  show "parseCoordinate v \<noteq> None" if "decimal_text v"
    using decimal_text_numeric_prefix [OF that] n by simp
next
  assume a: "44 \<notin> set a"
  have "js_replace (str '','') (str ''.'') (a @ 44 # b) = a @ 46 # b"
    using js_replace_first [OF a, of 46 b] by (simp add: str_def)
  then show "parseCoordinate (a @ 44 # b)
        = (if isNaN (parseFloat (a @ 46 # b)) then None else Some (parseFloat (a @ 46 # b)))"
    by (simp add: parseCoordinate_def Let_def)
next
  assume v: "44 \<notin> set v"
  have "js_replace (str '','') (str ''.'') v = v"
    using js_replace_absent [OF v, of 46] by (simp add: str_def)
  then show "parseCoordinate v = (if isNaN (parseFloat v) then None else Some (parseFloat v))"
    by (simp add: parseCoordinate_def Let_def)
qed

theorem parseCoordinate_comma_and_null_witness:
  "44 \<notin> set (str ''-2'') \<and> 44 \<notin> set (str ''abc'') \<and> decimal_text (str ''-2,21'')
   \<and> parseCoordinate (str ''-2'' @ 44 # str ''21'') = Some (parseFloat (str ''-2'' @ 46 # str ''21''))
   \<and> parseCoordinate (str ''-2,21'') \<noteq> None
   \<and> parseCoordinate (str ''abc'') = None \<and> isNaN (parseFloat (str ''abc''))"
proof -
  have h: "44 \<notin> set (str ''-2'')" "44 \<notin> set (str ''abc'')"
    by (simp_all add: str_def)
  have d: "decimal_text (str ''-2,21'')"
    by (simp add: decimal_text_def str_def isDigit_def)
  have n: "\<not> isNaN (parseFloat (str ''-2'' @ 46 # str ''21''))" "isNaN (parseFloat (str ''abc''))"
    by (simp_all add: parse_defs isNaN_double_of isNaN_js_neg)
  show ?thesis
    using parseCoordinate_comma_and_null [of "str ''abc''" "str ''-2''" "str ''21''"]
      parseCoordinate_comma_and_null [of "str ''-2,21''" "str ''-2''" "str ''21''"] h d n
    by simp
qed

text \<open>
  The claim as the specification states it, \<^verbatim>\<open>null\<close> on non-numeric input, fails on text
  that only starts with a number: \<^verbatim>\<open>"12abc"\<close> gives 12, and \<^verbatim>\<open>"1,2,3"\<close>, of which only the
  first comma is replaced, gives \<open>1.2\<close>.
\<close>

theorem numeric_prefix_counterexample:
  "\<not> decimal_text (str ''12abc'') \<and> parseCoordinate (str ''12abc'') = Some (Fin 12)
   \<and> \<not> decimal_text (str ''1,2,3'') \<and> parseCoordinate (str ''1,2,3'') = Some (double_of (6 / 5))"
proof (intro conjI)
  show "\<not> decimal_text (str ''12abc'')" "\<not> decimal_text (str ''1,2,3'')"
    by (simp_all add: decimal_text_def str_def isDigit_def)
  show "parseCoordinate (str ''12abc'') = Some (Fin 12)"
    by (simp add: parse_defs double_of_12)
  show "parseCoordinate (str ''1,2,3'') = Some (double_of (6 / 5))"
    by (simp add: parse_defs double_of_6_5)
qed

section \<open>Claims about the DMS parser\<close>

text \<open>
  C6, as the program has it: \<^verbatim>\<open>parseStringCoordinate\<close> throws, always the same format
  error, exactly when its regular expression finds no match in the trimmed text or a
  capture is absent.  It accepts every text that, once trimmed, has the full form
  \<^verbatim>\<open>D{1,3}\<degree>M{1,2}'S{1,2}(.S)?"[NSEW]\<close> without spaces, and it throws on every text
  without a degree sign.
\<close>

theorem parseStringCoordinate_accepts_pattern:
  "(dms_parts (trim s) \<noteq> None \<longrightarrow> (\<exists>v. parseStringCoordinate s = Inr v))
   \<and> (176 \<notin> set s \<longrightarrow> parseStringCoordinate s = Inl (InvalidFormat s))
   \<and> (parseStringCoordinate s = Inl (InvalidFormat s) \<longleftrightarrow>
        (case rx_exec dms_regex (trim s) of
           None \<Rightarrow> True
         | Some match \<Rightarrow>
             falsy (match 1) \<or> falsy (match 2) \<or> falsy (match 3) \<or> falsy (match 4)))
   \<and> (\<forall>e. parseStringCoordinate s = Inl e \<longrightarrow> e = InvalidFormat s)"
proof (intro conjI impI allI)
  assume "dms_parts (trim s) \<noteq> None"
  then obtain d m sec h where "dms_parts (trim s) = Some (d, m, sec, h)"
    by (cases "dms_parts (trim s)") auto
  then show "\<exists>v. parseStringCoordinate s = Inr v"
    using dms_value by blast
next
  assume "176 \<notin> set s"
  then show "parseStringCoordinate s = Inl (InvalidFormat s)"
    by (rule no_degree_throws)
next
  show "parseStringCoordinate s = Inl (InvalidFormat s) \<longleftrightarrow>
        (case rx_exec dms_regex (trim s) of
           None \<Rightarrow> True
         | Some match \<Rightarrow>
             falsy (match 1) \<or> falsy (match 2) \<or> falsy (match 3) \<or> falsy (match 4))"
    by (simp add: parseStringCoordinate_alt split: option.splits)
next
  fix e
  assume "parseStringCoordinate s = Inl e"
  then show "e = InvalidFormat s"
    by (auto simp: parseStringCoordinate_alt split: option.splits if_splits)
qed

theorem parseStringCoordinate_accepts_pattern_witness:
  "dms_parts (trim (dms_text ''23'' ''12'' ''30.5'' ''S'')) \<noteq> None
   \<and> (\<exists>v. parseStringCoordinate (dms_text ''23'' ''12'' ''30.5'' ''S'') = Inr v)
   \<and> 176 \<notin> set (str ''23 12 30.5 S'')
   \<and> parseStringCoordinate (str ''23 12 30.5 S'') = Inl (InvalidFormat (str ''23 12 30.5 S''))"
proof -
  have "dms_parts (trim (dms_text ''23'' ''12'' ''30.5'' ''S'')) \<noteq> None"
    by (simp add: dms_parts_def expect_def fraction_part_def dms_eval)
  moreover have "176 \<notin> set (str ''23 12 30.5 S'')"
    by (simp add: str_def)
  ultimately show ?thesis
    using parseStringCoordinate_accepts_pattern [of "dms_text ''23'' ''12'' ''30.5'' ''S''"]
      parseStringCoordinate_accepts_pattern [of "str ''23 12 30.5 S''"]
    by blast
qed

text \<open>
  The claim as the specification states it fails in both directions.  A text written
  as the specification writes the pattern, with its spaces, throws; and a text without
  the double quote after the seconds, which is not of the pattern, is parsed to
  \<open>-23.21\<close>.
\<close>

theorem pattern_counterexample:
  "spec_dms_pattern (dms_text_spaced ''23'' ''12'' ''30.5'' ''S'')
   \<and> parseStringCoordinate (dms_text_spaced ''23'' ''12'' ''30.5'' ''S'')
       = Inl (InvalidFormat (dms_text_spaced ''23'' ''12'' ''30.5'' ''S''))
   \<and> \<not> spec_dms_pattern (dms_text_unquoted ''23'' ''12'' ''30.5'' ''S'')
   \<and> parseStringCoordinate (dms_text_unquoted ''23'' ''12'' ''30.5'' ''S'')
       = Inr (double_of (- (2321 / 100)))"
proof (intro conjI)
  show "spec_dms_pattern (dms_text_spaced ''23'' ''12'' ''30.5'' ''S'')"
    by (simp add: spec_dms_pattern_def expect_def fraction_part_def dms_eval)
  show "parseStringCoordinate (dms_text_spaced ''23'' ''12'' ''30.5'' ''S'')
       = Inl (InvalidFormat (dms_text_spaced ''23'' ''12'' ''30.5'' ''S''))"
    by (simp add: dms_eval)
  show "\<not> spec_dms_pattern (dms_text_unquoted ''23'' ''12'' ''30.5'' ''S'')"
    by (simp add: spec_dms_pattern_def expect_def fraction_part_def dms_eval)
  show "parseStringCoordinate (dms_text_unquoted ''23'' ''12'' ''30.5'' ''S'')
       = Inr (double_of (- (2321 / 100)))"
    by (simp add: dms_eval dms_arith_1 double_of_minus_2321)
qed

text \<open>
  C7, as the program has it: for a text of the full form, and for every accepted text in
  terms of the captures of the match, the result is \<^verbatim>\<open>Math.round(x * 100) / 100\<close> where
  \<open>x\<close> is \<open>degrees + minutes / 60 + seconds / 3600\<close>, negated for the letters S and W, all
  computed in binary64 arithmetic; for \<^verbatim>\<open>23\<degree>12'30.5"S\<close> it is the number \<open>-23.21\<close>.
\<close>

theorem parseStringCoordinate_value:
  "(dms_parts (trim s) = Some (d, m, sec, h) \<longrightarrow>
      parseStringCoordinate s
      = Inr (round2 (hemisphere [h]
               (dms_decimal (parseInt10 d) (parseInt10 m) (parseFloat sec)))))
   \<and> (parseStringCoordinate s = Inr v \<longrightarrow>
        (\<exists>match. rx_exec dms_regex (trim s) = Some match
           \<and> v = round2 (hemisphere (the (match 4))
                   (dms_decimal (parseInt10 (the (match 1))) (parseInt10 (the (match 2)))
                                (parseFloat (the (match 3)))))))
   \<and> parseStringCoordinate (dms_text ''23'' ''12'' ''30.5'' ''S'') = Inr (double_of (- (2321 / 100)))"
proof (intro conjI impI)
  assume "dms_parts (trim s) = Some (d, m, sec, h)"
  then show "parseStringCoordinate s
      = Inr (round2 (hemisphere [h]
               (dms_decimal (parseInt10 d) (parseInt10 m) (parseFloat sec))))"
    by (rule dms_value)
next
  assume "parseStringCoordinate s = Inr v"
  then show "\<exists>match. rx_exec dms_regex (trim s) = Some match
           \<and> v = round2 (hemisphere (the (match 4))
                   (dms_decimal (parseInt10 (the (match 1))) (parseInt10 (the (match 2)))
                                (parseFloat (the (match 3)))))"
    by (auto simp: parseStringCoordinate_alt split: option.splits if_splits)
next
  show "parseStringCoordinate (dms_text ''23'' ''12'' ''30.5'' ''S'') = Inr (double_of (- (2321 / 100)))"
    by (simp add: dms_eval dms_arith_1 double_of_minus_2321)
qed

theorem parseStringCoordinate_value_witness:
  "dms_parts (trim (dms_text ''23'' ''12'' ''30.5'' ''S''))
     = Some (str ''23'', str ''12'', str ''30.5'', 83)
   \<and> parseStringCoordinate (dms_text ''23'' ''12'' ''30.5'' ''S'')
       = Inr (round2 (hemisphere [83]
                (dms_decimal (parseInt10 (str ''23'')) (parseInt10 (str ''12''))
                             (parseFloat (str ''30.5'')))))
   \<and> parseStringCoordinate (dms_text ''23'' ''12'' ''30.5'' ''S'') = Inr (double_of (- (2321 / 100)))"
proof -
  have "dms_parts (trim (dms_text ''23'' ''12'' ''30.5'' ''S''))
     = Some (str ''23'', str ''12'', str ''30.5'', 83)"
    by (simp add: dms_parts_def expect_def fraction_part_def dms_eval)
  then show ?thesis
    using parseStringCoordinate_value [of "dms_text ''23'' ''12'' ''30.5'' ''S''"
        "str ''23''" "str ''12''" "str ''30.5''" 83]
    by blast
qed

text \<open>
  The claim as the specification states it, the exact value rounded to two decimals,
  fails next to a rounding boundary: for \<^verbatim>\<open>1\<degree>0'18.00000000000001"N\<close> a hundred times the
  exact value lies within a half of 101 and above 100.5, so it rounds to \<open>1.01\<close>, and the
  program returns \<open>1\<close>.
\<close>

theorem rounding_boundary_counterexample:
  "parseStringCoordinate (dms_text ''1'' ''0'' ''18.00000000000001'' ''N'') = Inr (Fin 1)
   \<and> \<bar>100 * (1 + 0 / 60 + (1800000000000001 / 100000000000000) / 3600) - (101 :: rat)\<bar> < 1 / 2
   \<and> double_of (101 / 100) \<noteq> Fin 1"
proof (intro conjI)
  show "parseStringCoordinate (dms_text ''1'' ''0'' ''18.00000000000001'' ''N'') = Inr (Fin 1)"
    by (simp add: dms_eval dms_arith_2)
  show "\<bar>100 * (1 + 0 / 60 + (1800000000000001 / 100000000000000) / 3600) - (101 :: rat)\<bar> < 1 / 2"
    by simp
  show "double_of (101 / 100) \<noteq> Fin 1"
    by (simp add: double_of_101)
qed

section \<open>Claims about the projection\<close>

text \<open>
  C8, as the program has it: with the default half-width \<^verbatim>\<open>latLonToEnvelope\<close> returns the
  envelope \<open>x - 1000\<close>, \<open>y - 1000\<close>, \<open>x + 1000\<close>, \<open>y + 1000\<close> with \<open>wkid\<close> 102100, where
  \<open>x = R \<cdot> (longitude \<cdot> \<pi> / 180)\<close> and \<open>y = R \<cdot> ln (tan (\<pi> / 4 + latitude \<cdot> \<pi> / 180 / 2))\<close>
  with \<open>R = 6378137\<close>, every operation being a binary64 operation.  For a longitude
  between \<open>-180\<close> and \<open>180\<close> the value \<open>x\<close> is finite and lies strictly between \<open>xmin\<close> and
  \<open>xmax\<close>; the same holds for \<open>y\<close>, \<open>ymin\<close> and \<open>ymax\<close> whenever \<open>y\<close> is finite and at most
  \<open>2 ^ 52\<close> in magnitude.
\<close>

theorem latLonToEnvelope_square:
  "latLonToEnvelope M lat lon None
     = \<lparr> xmin = js_sub (calcXValue lon) (Fin 1000),
         ymin = js_sub (calcYValue M lat) (Fin 1000),
         xmax = js_add (calcXValue lon) (Fin 1000),
         ymax = js_add (calcYValue M lat) (Fin 1000),
         spatialReference = \<lparr> wkid = Fin 102100 \<rparr> \<rparr>
   \<and> calcXValue lon = js_mul (Fin 6378137) (js_div (js_mul lon Math_PI) (Fin 180))
   \<and> calcYValue M lat
       = js_mul (Fin 6378137)
           (Math_log M (Math_tan M
              (js_add (js_div Math_PI (Fin 4))
                      (js_div (js_div (js_mul lat Math_PI) (Fin 180)) (Fin 2)))))
   \<and> (lon = Fin l \<and> \<bar>l\<bar> \<le> 180 \<longrightarrow>
        isFinite (calcXValue lon)
        \<and> js_less (xmin (latLonToEnvelope M lat lon None)) (calcXValue lon)
        \<and> js_less (calcXValue lon) (xmax (latLonToEnvelope M lat lon None))
        \<and> js_less (xmin (latLonToEnvelope M lat lon None)) (xmax (latLonToEnvelope M lat lon None)))
   \<and> (calcYValue M lat = Fin y \<and> \<bar>y\<bar> \<le> 2 ^ 52 \<longrightarrow>
        js_less (ymin (latLonToEnvelope M lat lon None)) (calcYValue M lat)
        \<and> js_less (calcYValue M lat) (ymax (latLonToEnvelope M lat lon None))
        \<and> js_less (ymin (latLonToEnvelope M lat lon None)) (ymax (latLonToEnvelope M lat lon None)))"
proof (intro conjI impI)
  show e: "latLonToEnvelope M lat lon None
     = \<lparr> xmin = js_sub (calcXValue lon) (Fin 1000),
         ymin = js_sub (calcYValue M lat) (Fin 1000),
         xmax = js_add (calcXValue lon) (Fin 1000),
         ymax = js_add (calcYValue M lat) (Fin 1000),
         spatialReference = \<lparr> wkid = Fin 102100 \<rparr> \<rparr>"
    by (simp add: latLonToEnvelope_def returnEnvelope_def nullish_def WKID_def Let_def)
  show "calcXValue lon = js_mul (Fin 6378137) (js_div (js_mul lon Math_PI) (Fin 180))"
    by (simp add: calcXValue_def RADIUS_def)
  show "calcYValue M lat
       = js_mul (Fin 6378137)
           (Math_log M (Math_tan M
              (js_add (js_div Math_PI (Fin 4))
                      (js_div (js_div (js_mul lat Math_PI) (Fin 180)) (Fin 2)))))"
    by (simp add: calcYValue_def RADIUS_def)
  {
    assume h: "lon = Fin l \<and> \<bar>l\<bar> \<le> 180"
    then obtain x where x: "calcXValue lon = Fin x" "\<bar>x\<bar> \<le> 2 ^ 52"
      using calcXValue_range [of l] by blast
    show "isFinite (calcXValue lon)" by (simp add: x(1))
    show "js_less (xmin (latLonToEnvelope M lat lon None)) (calcXValue lon)"
      unfolding e x(1) using half_width_interval [OF x(2)] by simp
    show "js_less (calcXValue lon) (xmax (latLonToEnvelope M lat lon None))"
      unfolding e x(1) using half_width_interval [OF x(2)] by simp
    show "js_less (xmin (latLonToEnvelope M lat lon None)) (xmax (latLonToEnvelope M lat lon None))"
      unfolding e x(1) using half_width_interval [OF x(2)] by simp
  }
  {
    assume h: "calcYValue M lat = Fin y \<and> \<bar>y\<bar> \<le> 2 ^ 52"
    then have y: "calcYValue M lat = Fin y" "\<bar>y\<bar> \<le> 2 ^ 52" by simp_all
    show "js_less (ymin (latLonToEnvelope M lat lon None)) (calcYValue M lat)"
      unfolding e y(1) using half_width_interval [OF y(2)] by simp
    show "js_less (calcYValue M lat) (ymax (latLonToEnvelope M lat lon None))"
      unfolding e y(1) using half_width_interval [OF y(2)] by simp
    show "js_less (ymin (latLonToEnvelope M lat lon None)) (ymax (latLonToEnvelope M lat lon None))"
      unfolding e y(1) using half_width_interval [OF y(2)] by simp
  }
qed

theorem latLonToEnvelope_square_witness:
  "Fin 0 = Fin 0 \<and> \<bar>0 :: rat\<bar> \<le> 180
   \<and> calcYValue flat_math (Fin 0) = Fin 0 \<and> \<bar>0 :: rat\<bar> \<le> 2 ^ 52
   \<and> js_less (xmin (latLonToEnvelope flat_math (Fin 0) (Fin 0) None))
              (xmax (latLonToEnvelope flat_math (Fin 0) (Fin 0) None))
   \<and> js_less (ymin (latLonToEnvelope flat_math (Fin 0) (Fin 0) None))
              (ymax (latLonToEnvelope flat_math (Fin 0) (Fin 0) None))"
proof -
  have y: "calcYValue flat_math (Fin 0) = Fin 0"
    by (simp add: calcYValue_def equator_angle flat_math_def RADIUS_def double_of_def)
  have p1: "Fin 0 = Fin 0 \<and> \<bar>0 :: rat\<bar> \<le> 180" by simp
  have p2: "calcYValue flat_math (Fin 0) = Fin 0 \<and> \<bar>0 :: rat\<bar> \<le> 2 ^ 52" using y by simp
  from latLonToEnvelope_square [of flat_math "Fin 0" "Fin 0" 0 0] p1 p2 show ?thesis
    by blast
qed

text \<open>
  The claim as the specification states it, \<open>ymin < ymax\<close> for every finite latitude,
  fails at the south pole: for the latitude \<open>-90\<close> the angle is exactly zero, its tangent
  is zero and the logarithm is \<open>-\<infinity>\<close> under every implementation of \<^verbatim>\<open>Math.tan\<close> and
  \<^verbatim>\<open>Math.log\<close>, so both \<open>ymin\<close> and \<open>ymax\<close> are \<open>-\<infinity>\<close>.
\<close>

theorem south_pole_counterexample:
  "isFinite (Fin (- 90)) \<and> isFinite (Fin 0)
   \<and> ymin (latLonToEnvelope flat_math (Fin (- 90)) (Fin 0) None) = NegInf
   \<and> ymax (latLonToEnvelope flat_math (Fin (- 90)) (Fin 0) None) = NegInf
   \<and> \<not> js_less (ymin (latLonToEnvelope flat_math (Fin (- 90)) (Fin 0) None))
                (ymax (latLonToEnvelope flat_math (Fin (- 90)) (Fin 0) None))"
  by (simp add: latLonToEnvelope_def returnEnvelope_def calcYValue_south_pole js_sub_def nullish_def
        Let_def)

section \<open>The delay between batches\<close>

text \<open>
  C10: the delay constant \<^verbatim>\<open>BATCH_DELAY\<close> is \<open>(60 / (REQ_LIMIT_PER_MIN / BATCH_SIZE)) * 1000\<close>
  milliseconds, computed in binary64 arithmetic, and with the configured rate limit of 60
  requests per minute and batch size of 10 it is exactly 10000.
\<close>

theorem BATCH_DELAY_is_10000:
  "REQ_LIMIT_PER_MIN = Fin 60 \<and> BATCH_SIZE = Fin 10
   \<and> BATCH_DELAY = js_mul (js_div (Fin 60) (js_div REQ_LIMIT_PER_MIN BATCH_SIZE)) (Fin 1000)
   \<and> BATCH_DELAY = Fin 10000"
proof -
  have "BATCH_DELAY = Fin 10000" by code_simp
  then show ?thesis
    by (simp add: REQ_LIMIT_PER_MIN_def BATCH_SIZE_def BATCH_DELAY_def)
qed

end
